theory Spec2Isabelle
  imports
    Complex_Main
    "HOL-Library.AList"
    "HOL-Library.Char_ord"
    "HOL-Library.List_Lexorder"
    "HOL-Library.Product_Lexorder"
begin

section \<open>Cells, tables and Python errors\<close>

text \<open>
  The program keeps every table in a pandas DataFrame. A cell is a number, a text, a
  calendar date or the missing value (pandas' NaN / NaT / None). A number is the real
  value of a float64; the sums of columns and of groups round as float64 addition does
  (\<open>round64\<close> below), and infinities and NaN as results of arithmetic are not part of
  this model. A \<open>char\<close> stands for one character of a Python \<open>str\<close>, so the texts of
  the model are those of code points below 256, ordered by code point.
\<close>

datatype date = Date int nat nat

datatype cell = Num real | Str string | Day date | NaN

datatype py_error = KeyError string | ZeroDivisionError | ReadError

text \<open>
  A DataFrame is the ordered list of its columns, each a name with the cells of that
  column from the first row to the last. The number of rows is the common length of the
  columns; a table without columns has no rows, as every table that is read from a
  workbook or built by this program.
\<close>

type_synonym dataframe = "(string \<times> cell list) list"

definition nrows :: "dataframe \<Rightarrow> nat" where
  "nrows df = (case df of [] \<Rightarrow> 0 | (c, vs) # rest \<Rightarrow> length vs)"

definition wf_frame :: "dataframe \<Rightarrow> bool" where
  "wf_frame df = (\<forall>(c, vs) \<in> set df. length vs = nrows df)"

text \<open>\<open>df.empty\<close>: one of the two axes has length 0.\<close>

definition df_empty :: "dataframe \<Rightarrow> bool" where
  "df_empty df = (length df = 0 \<or> nrows df = 0)"

text \<open>\<open>pd.DataFrame(columns=names)\<close>: the named columns and no row.\<close>

definition empty_table :: "string list \<Rightarrow> dataframe" where
  "empty_table names = map (\<lambda>c. (c, [])) names"

text \<open>The cell of column \<open>c\<close> in row \<open>i\<close>, when the table has both.\<close>

definition cell_at :: "dataframe \<Rightarrow> string \<Rightarrow> nat \<Rightarrow> cell option" where
  "cell_at df c i =
     (case map_of df c of
        None \<Rightarrow> None
      | Some vs \<Rightarrow> if i < length vs then Some (vs ! i) else None)"

section \<open>Type normalizer: \<open>_sanitize_types\<close>\<close>

text \<open>
  What \<open>pd.to_numeric\<close> and \<open>pd.to_datetime\<close> make of a text (and \<open>pd.to_datetime\<close> of a
  number) is the library's business; the model takes it as a parameter. \<open>None\<close> stands for
  the NaN / NaT that \<open>errors='coerce'\<close> yields for a value that does not parse. The date
  parsers see the whole column, since pandas may infer one format for all of it.
\<close>

record coercions =
  str_to_numeric :: "string \<Rightarrow> real option"
  str_to_datetime :: "cell list \<Rightarrow> string \<Rightarrow> date option"
  num_to_datetime :: "cell list \<Rightarrow> real \<Rightarrow> date option"

text \<open>\<open>pd.to_datetime(col, errors='coerce').dt.date\<close>, cell by cell.\<close>

fun to_date :: "coercions \<Rightarrow> cell list \<Rightarrow> cell \<Rightarrow> cell" where
  "to_date p col (Day d) = Day d"
| "to_date p col (Str s) = (case str_to_datetime p col s of None \<Rightarrow> NaN | Some d \<Rightarrow> Day d)"
| "to_date p col (Num x) = (case num_to_datetime p col x of None \<Rightarrow> NaN | Some d \<Rightarrow> Day d)"
| "to_date p col NaN = NaN"

text \<open>\<open>pd.to_numeric(col, errors='coerce')\<close>, cell by cell; \<open>None\<close> is NaN.\<close>

fun to_numeric :: "coercions \<Rightarrow> cell \<Rightarrow> real option" where
  "to_numeric p (Num x) = Some x"
| "to_numeric p (Str s) = str_to_numeric p s"
| "to_numeric p (Day d) = None"
| "to_numeric p NaN = None"

text \<open>\<open>.fillna(0.0)\<close> on the coerced value.\<close>

definition numeric_cell :: "coercions \<Rightarrow> cell \<Rightarrow> cell" where
  "numeric_cell p v = Num (case to_numeric p v of None \<Rightarrow> 0 | Some x \<Rightarrow> x)"

text \<open>
  \<open>lambda x: 'Paid' if x <= 0 else 'Not Paid'\<close>. The program applies it to the
  Outstanding column after \<open>pd.to_numeric\<close> and to the sums of groups, which hold numbers
  only (lemmas \<open>sanitize_numeric_cells\<close> and \<open>group_sum_Num\<close>). A NaN would compare
  false; on a text or a date, which do not occur there, Python would raise a TypeError.
\<close>

fun status_lambda :: "cell \<Rightarrow> cell" where
  "status_lambda (Num x) = Str (if x \<le> 0 then ''Paid'' else ''Not Paid'')"
| "status_lambda v = Str ''Not Paid''"

text \<open>\<open>if c in df.columns: df[c] = f(df[c])\<close>.\<close>

definition apply_to_column :: "(cell list \<Rightarrow> cell list) \<Rightarrow> string \<Rightarrow> dataframe \<Rightarrow> dataframe" where
  "apply_to_column f c df =
     (case map_of df c of None \<Rightarrow> df | Some vs \<Rightarrow> AList.update c (f vs) df)"

definition numeric_columns :: "string list" where
  "numeric_columns = [''Deposit Amount'', ''Rate'', ''Total Amount'', ''Amount Paid'', ''Outstanding'']"

text \<open>\<open>if 'Outstanding' in df.columns: df['Status'] = df['Outstanding'].apply(...)\<close>.\<close>

definition derive_status :: "dataframe \<Rightarrow> dataframe" where
  "derive_status df =
     (case map_of df ''Outstanding'' of
        None \<Rightarrow> df
      | Some vs \<Rightarrow> AList.update ''Status'' (map status_lambda vs) df)"

text \<open>The loop over the numeric columns.\<close>

definition numeric_pass :: "coercions \<Rightarrow> dataframe \<Rightarrow> dataframe" where
  "numeric_pass p df =
     foldl (\<lambda>d c. apply_to_column (map (numeric_cell p)) c d) df numeric_columns"

definition sanitize_types :: "coercions \<Rightarrow> dataframe \<Rightarrow> dataframe" where
  "sanitize_types p df =
     (if df_empty df then df
      else
        let df1 = apply_to_column (\<lambda>vs. map (to_date p vs) vs) ''Date'' df;
            df2 = numeric_pass p df1
        in derive_status df2)"

section \<open>Aggregation engine: \<open>_recompute_from_main\<close>\<close>

definition MAIN_SHEET :: string where "MAIN_SHEET = ''Main Data''"
definition CUSTOMER_SHEET :: string where "CUSTOMER_SHEET = ''Customer Summary''"
definition PURCHASE_SHEET :: string where "PURCHASE_SHEET = ''Purchase Summary''"
definition DAILY_SHEET :: string where "DAILY_SHEET = ''Daily Summary''"

text \<open>The dict of the four tables, in insertion order.\<close>

type_synonym frames = "(string \<times> dataframe) list"

text \<open>
  A number cell holds a float64, and pandas adds floats with rounding. \<open>round64\<close> rounds a
  real to the nearest double, ties to the even mantissa: the unit in the last place is
  \<open>2 powi (e - 52)\<close> for the binade \<open>e\<close> of the real, and \<open>2 powi (- 1074)\<close> below the
  smallest normal double. The model has no infinite cell: beyond the largest double it
  rounds as in the largest binade, where pandas gives \<open>inf\<close>.
\<close>

definition round_even :: "real \<Rightarrow> int" where
  "round_even q =
     (let f = \<lfloor>q\<rfloor> in
      if q - of_int f < 1 / 2 then f
      else if 1 / 2 < q - of_int f then f + 1
      else if even f then f else f + 1)"

definition normal_exponents :: "int list" where
  "normal_exponents = [- 1022 .. 1023]"

definition exponent64 :: "real \<Rightarrow> int" where
  "exponent64 x =
     (case find (\<lambda>e. 2 powi e \<le> \<bar>x\<bar> \<and> \<bar>x\<bar> < 2 powi (e + 1)) normal_exponents of
        Some e \<Rightarrow> e
      | None \<Rightarrow> if \<bar>x\<bar> < 2 powi (- 1022) then - 1022 else 1023)"

definition round64 :: "real \<Rightarrow> real" where
  "round64 x =
     (let ulp = 2 powi (exponent64 x - 52) in of_int (round_even (x / ulp)) * ulp)"

text \<open>The \<open>+\<close> of two floats.\<close>

definition fadd :: "real \<Rightarrow> real \<Rightarrow> real" where
  "fadd a b = round64 (a + b)"

text \<open>
  The float in a numeric cell. \<open>Series.sum()\<close> skips NaN; texts and dates do not occur in
  a column that \<open>pd.to_numeric\<close> has coerced (lemma \<open>sanitize_numeric_cells\<close>).
\<close>

fun float_of :: "cell \<Rightarrow> real" where
  "float_of (Num x) = x"
| "float_of v = 0"

text \<open>
  \<open>Series.sum()\<close>, and \<open>'sum'\<close> within a group: the floats are added from the first row to
  the last, each addition rounded; the sum of no cell is 0. This is the order in which
  numpy adds fewer than eight floats. (It adds longer columns in blocks, and pandas
  carries a compensation term within a group; a column that holds only whole numbers may
  be an int64 column, whose sum is exact until it wraps at \<open>2 ^ 63\<close>. Where no addition
  rounds, all of these give the same sum.) Of the program's arithmetic these additions
  are rounded in the model, because sums taken in two orders are compared; every other
  expression is evaluated once, as written.
\<close>

definition series_sum :: "cell list \<Rightarrow> real" where
  "series_sum vs = foldl fadd 0 (map float_of vs)"

text \<open>
  \<open>groupby('Customer', dropna=False)\<close>: one group for each distinct key, the missing
  value being a key of its own, in sorted key order: numbers, then texts by code point,
  then dates, the missing key last.
\<close>

fun cell_rank :: "cell \<Rightarrow> nat \<times> real \<times> string \<times> int \<times> nat \<times> nat" where
  "cell_rank (Num x) = (0, x, [], 0, 0, 0)"
| "cell_rank (Str s) = (1, 0, s, 0, 0, 0)"
| "cell_rank (Day (Date y m d)) = (2, 0, [], y, m, d)"
| "cell_rank NaN = (3, 0, [], 0, 0, 0)"

definition group_keys :: "cell list \<Rightarrow> cell list" where
  "group_keys ks = sort_key cell_rank (remdups ks)"

text \<open>\<open>'sum'\<close> of one column over the rows whose key is \<open>k\<close>.\<close>

definition group_sum :: "cell list \<Rightarrow> cell list \<Rightarrow> cell \<Rightarrow> cell" where
  "group_sum ks vs k = Num (series_sum (map snd (filter (\<lambda>kv. fst kv = k) (zip ks vs))))"

text \<open>\<open>df[c]\<close>.\<close>

definition getitem :: "dataframe \<Rightarrow> string \<Rightarrow> py_error + cell list" where
  "getitem df c = (case map_of df c of None \<Rightarrow> Inl (KeyError c) | Some vs \<Rightarrow> Inr vs)"

text \<open>\<open>df[[c1, ..., cn]]\<close>; the KeyError names the first absent column.\<close>

fun select_columns :: "dataframe \<Rightarrow> string list \<Rightarrow> py_error + dataframe" where
  "select_columns df [] = Inr []"
| "select_columns df (c # cs) =
     (case map_of df c of
        None \<Rightarrow> Inl (KeyError c)
      | Some vs \<Rightarrow>
          (case select_columns df cs of
             Inl e \<Rightarrow> Inl e
           | Inr out \<Rightarrow> Inr ((c, vs) # out)))"

text \<open>\<open>df.groupby(by, dropna=False).agg({c: 'sum' for c in aggs}).reset_index()\<close>.\<close>

definition groupby_sum :: "dataframe \<Rightarrow> string \<Rightarrow> string list \<Rightarrow> py_error + dataframe" where
  "groupby_sum df by aggs =
     (case map_of df by of
        None \<Rightarrow> Inl (KeyError by)
      | Some ks \<Rightarrow>
          (case select_columns df aggs of
             Inl e \<Rightarrow> Inl e
           | Inr sel \<Rightarrow>
               Inr ((by, group_keys ks) #
                    map (\<lambda>cv. (fst cv, map (group_sum ks (snd cv)) (group_keys ks))) sel)))"

text \<open>\<open>df.rename(columns=ren)\<close>.\<close>

definition rename_columns :: "(string \<times> string) list \<Rightarrow> dataframe \<Rightarrow> dataframe" where
  "rename_columns ren df =
     map (\<lambda>cv. (case map_of ren (fst cv) of None \<Rightarrow> fst cv | Some c' \<Rightarrow> c', snd cv)) df"

definition customer_columns :: "string list" where
  "customer_columns = [''Customer'', ''Total Deposit'', ''Total Paid'', ''Outstanding'', ''Status'']"

text \<open>Lines 99 to 107: the customer summary of a ledger that is not empty.\<close>

definition customer_summary :: "dataframe \<Rightarrow> py_error + dataframe" where
  "customer_summary main =
     (case groupby_sum main ''Customer''
             [''Deposit Amount'', ''Amount Paid'', ''Outstanding'', ''Total Amount''] of
        Inl e \<Rightarrow> Inl e
      | Inr grp0 \<Rightarrow>
          (let grp1 = rename_columns
                 [(''Deposit Amount'', ''Total Deposit''), (''Amount Paid'', ''Total Paid'')] grp0
           in case getitem grp1 ''Outstanding'' of
                Inl e \<Rightarrow> Inl e
              | Inr out \<Rightarrow>
                  select_columns (AList.update ''Status'' (map status_lambda out) grp1)
                    customer_columns))"

text \<open>
  Python's \<open>/\<close> on floats. (On numpy floats a zero divisor gives inf or nan with a warning;
  the guard of the caller keeps both away.)
\<close>

definition py_div :: "real \<Rightarrow> real \<Rightarrow> py_error + real" where
  "py_div a b = (if b = 0 then Inl ZeroDivisionError else Inr (a / b))"

text \<open>\<open>(x / total_amount_sum * 100) if total_amount_sum else 0.0\<close>.\<close>

definition share :: "real \<Rightarrow> real \<Rightarrow> py_error + real" where
  "share x total_amount_sum =
     (if total_amount_sum \<noteq> 0
      then (case py_div x total_amount_sum of Inl e \<Rightarrow> Inl e | Inr q \<Rightarrow> Inr (q * 100))
      else Inr 0)"

text \<open>
  The Greek capital sigma of the first metric's name lies beyond the characters of the
  model; the two bytes of its UTF-8 encoding stand for it.
\<close>

definition sigma :: string where
  "sigma = [CHR 0xCE, CHR 0xA3]"

definition purchase_metrics :: "cell list" where
  "purchase_metrics =
     [Str (''Total Amount ('' @ sigma @ '' deposit*rate)''), Str ''Total Paid'',
      Str ''Total Outstanding'', Str ''Paid Share (%)'', Str ''Outstanding Share (%)'']"

definition daily_metrics :: "cell list" where
  "daily_metrics =
     [Str ''Expense'', Str ''Other Expense'', Str ''Sum of Total Amount'', Str ''Total Paid'',
      Str ''Profit'']"

text \<open>Lines 93 to 110: the customer summary and the three ledger-wide totals.\<close>

definition totals :: "dataframe \<Rightarrow> py_error + dataframe \<times> real \<times> real \<times> real" where
  "totals main =
     (if df_empty main then Inr (empty_table customer_columns, 0, 0, 0)
      else
        case customer_summary main of
          Inl e \<Rightarrow> Inl e
        | Inr cust \<Rightarrow>
            (case getitem main ''Amount Paid'' of
               Inl e \<Rightarrow> Inl e
             | Inr paid \<Rightarrow>
                 (case getitem main ''Outstanding'' of
                    Inl e \<Rightarrow> Inl e
                  | Inr out \<Rightarrow>
                      (case getitem main ''Total Amount'' of
                         Inl e \<Rightarrow> Inl e
                       | Inr tot \<Rightarrow>
                           Inr (cust, series_sum paid, series_sum out, series_sum tot)))))"

definition recompute_from_main ::
    "coercions \<Rightarrow> dataframe \<Rightarrow> real \<Rightarrow> real \<Rightarrow> py_error + frames" where
  "recompute_from_main p main_df expense other_expense =
     (let main = sanitize_types p main_df in
      case totals main of
        Inl e \<Rightarrow> Inl e
      | Inr (cust, paid_total, outstanding_total, total_amount_sum) \<Rightarrow>
          (case share paid_total total_amount_sum of
             Inl e \<Rightarrow> Inl e
           | Inr paid_share \<Rightarrow>
               (case share outstanding_total total_amount_sum of
                  Inl e \<Rightarrow> Inl e
                | Inr outstanding_share \<Rightarrow>
                    (let purchase =
                           [(''Metric'', purchase_metrics),
                            (''Value'', [Num total_amount_sum, Num paid_total,
                                         Num outstanding_total, Num paid_share,
                                         Num outstanding_share])];
                         profit = total_amount_sum - paid_total - expense - other_expense;
                         daily =
                           [(''Metric'', daily_metrics),
                            (''Value'', [Num expense, Num other_expense, Num total_amount_sum,
                                         Num paid_total, Num profit])]
                     in Inr [(MAIN_SHEET, main), (CUSTOMER_SHEET, cust),
                             (PURCHASE_SHEET, purchase), (DAILY_SHEET, daily)]))))"

section \<open>Table serializer: \<open>_empty_frames\<close>, \<open>_load_workbook\<close>, \<open>_to_excel_bytes\<close>\<close>

definition ledger_columns :: "string list" where
  "ledger_columns =
     [''Date'', ''Customer'', ''Deposit Amount'', ''Rate'', ''Total Amount'', ''Amount Paid'',
      ''Outstanding'', ''Status'']"

definition metric_columns :: "string list" where
  "metric_columns = [''Metric'', ''Value'']"

definition sheet_names :: "string list" where
  "sheet_names = [MAIN_SHEET, CUSTOMER_SHEET, PURCHASE_SHEET, DAILY_SHEET]"

definition empty_frames :: frames where
  "empty_frames =
     [(MAIN_SHEET, empty_table ledger_columns), (CUSTOMER_SHEET, empty_table customer_columns),
      (PURCHASE_SHEET, empty_table metric_columns), (DAILY_SHEET, empty_table metric_columns)]"

text \<open>
  The exchange artifact. Writing and parsing the xlsx bytes is the work of pandas,
  xlsxwriter and openpyxl, not of this program: the model keeps of a file only whether it
  can be read as a workbook and, if so, its named sheets in order, each with a table. For
  a file that is uploaded, the table of a sheet is the one that \<open>pd.read_excel\<close> returns
  for it; for a file that \<open>_to_excel_bytes\<close> writes, it is the table handed to
  \<open>df.to_excel\<close>. Which table the reader returns for a table that was written is not
  fixed here: \<open>as_read\<close> below takes it as a parameter.
\<close>

datatype upload = Unreadable | Workbook "(string \<times> dataframe) list"

text \<open>\<open>pd.read_excel(file, sheet_name=None)\<close>: the dict of all sheets, or an exception.\<close>

definition read_excel :: "upload \<Rightarrow> py_error + (string \<times> dataframe) list" where
  "read_excel file = (case file of Unreadable \<Rightarrow> Inl ReadError | Workbook book \<Rightarrow> Inr book)"

text \<open>The \<open>try\<close> block returns the frames; \<open>except Exception\<close> returns the empty ones.\<close>

definition load_workbook :: "upload \<Rightarrow> frames" where
  "load_workbook file =
     (case read_excel file of
        Inl e \<Rightarrow> empty_frames
      | Inr book \<Rightarrow>
          foldl (\<lambda>frames sheet.
                   case map_of book sheet of
                     None \<Rightarrow> frames
                   | Some df \<Rightarrow> AList.update sheet df frames)
            empty_frames sheet_names)"

text \<open>The loop of \<open>_to_excel_bytes\<close> over \<open>frames.items()\<close>, one sheet for each entry.\<close>

fun write_sheets :: "frames \<Rightarrow> py_error + (string \<times> dataframe) list" where
  "write_sheets [] = Inr []"
| "write_sheets ((name, df) # rest) =
     (case (if name = MAIN_SHEET \<and> \<not> df_empty df then select_columns df ledger_columns
            else Inr df) of
        Inl e \<Rightarrow> Inl e
      | Inr df' \<Rightarrow>
          (case write_sheets rest of
             Inl e \<Rightarrow> Inl e
           | Inr sheets \<Rightarrow> Inr ((name, df') # sheets)))"

definition to_excel_bytes :: "frames \<Rightarrow> py_error + upload" where
  "to_excel_bytes frames =
     (case write_sheets frames of Inl e \<Rightarrow> Inl e | Inr sheets \<Rightarrow> Inr (Workbook sheets))"

text \<open>Lines 184 and 185: the bytes offered for download on every run.\<close>

definition export_bytes :: "coercions \<Rightarrow> dataframe \<Rightarrow> real \<Rightarrow> real \<Rightarrow> py_error + upload" where
  "export_bytes p main_df expense other_expense =
     (case recompute_from_main p main_df expense other_expense of
        Inl e \<Rightarrow> Inl e
      | Inr recomputed \<Rightarrow> to_excel_bytes recomputed)"

section \<open>Entry form: live preview and submit handler\<close>

text \<open>
  \<open>str.strip()\<close> removes leading and trailing whitespace. Below code point 256 the
  whitespace characters of Python are tab to carriage return, the four separators 0x1C to
  0x1F, the space, the next-line character 0x85 and the no-break space 0xA0.
\<close>

definition is_space :: "char \<Rightarrow> bool" where
  "is_space ch = (ch \<in> set [CHR 0x09, CHR 0x0A, CHR 0x0B, CHR 0x0C, CHR 0x0D,
                              CHR 0x1C, CHR 0x1D, CHR 0x1E, CHR 0x1F, CHR 0x20,
                              CHR 0x85, CHR 0xA0])"

definition strip :: "string \<Rightarrow> string" where
  "strip s = rev (dropWhile is_space (rev (dropWhile is_space s)))"


text \<open>Lines 235 to 244: the one-row table of the new entry, as its dict.\<close>

definition new_row :: "date \<Rightarrow> string \<Rightarrow> real \<Rightarrow> real \<Rightarrow> real \<Rightarrow> (string \<times> cell) list" where
  "new_row entry_date customer deposit rate amount_paid =
     (let total_amount = deposit * rate in
      [(''Date'', Day entry_date),
       (''Customer'', Str (strip customer)),
       (''Deposit Amount'', Num deposit),
       (''Rate'', Num rate),
       (''Total Amount'', Num total_amount),
       (''Amount Paid'', Num amount_paid),
       (''Outstanding'', Num (total_amount - amount_paid)),
       (''Status'', Str (if total_amount - amount_paid \<le> 0 then ''Paid'' else ''Not Paid''))])"

text \<open>
  \<open>pd.concat([df, pd.DataFrame([row])], ignore_index=True)\<close>: the columns of \<open>df\<close>, then
  those only the row has; a cell that one side lacks is missing.
\<close>

definition append_row :: "dataframe \<Rightarrow> (string \<times> cell) list \<Rightarrow> dataframe" where
  "append_row df row =
     map (\<lambda>cv. (fst cv, snd cv @ [case map_of row (fst cv) of None \<Rightarrow> NaN | Some v \<Rightarrow> v])) df @
     map (\<lambda>cv. (fst cv, replicate (nrows df) NaN @ [snd cv]))
       (filter (\<lambda>cv. map_of df (fst cv) = None) row)"

datatype message = Error_message string | Success_message string

text \<open>\<open>frames[name]\<close> on the dict of tables.\<close>

definition get_frame :: "frames \<Rightarrow> string \<Rightarrow> py_error + dataframe" where
  "get_frame frames name =
     (case map_of frames name of None \<Rightarrow> Inl (KeyError name) | Some df \<Rightarrow> Inr df)"

text \<open>
  Line 173 and lines 231 to 247: one submission of the entry form on the session's frames,
  with the two expenses of the sidebar. The result is the session's frames afterwards and
  the message shown.
\<close>

definition add_transaction ::
    "coercions \<Rightarrow> frames \<Rightarrow> date \<Rightarrow> string \<Rightarrow> real \<Rightarrow> real \<Rightarrow> real \<Rightarrow> real \<Rightarrow> real \<Rightarrow>
     py_error + frames \<times> message" where
  "add_transaction p frames entry_date customer deposit rate amount_paid expense other_expense =
     (case get_frame frames MAIN_SHEET of
        Inl e \<Rightarrow> Inl e
      | Inr main0 \<Rightarrow>
          (let main_df = sanitize_types p main0 in
           if customer = [] \<or> strip customer = []
           then Inr (frames, Error_message ''Please enter a customer name.'')
           else
             let updated_main =
                   append_row main_df (new_row entry_date customer deposit rate amount_paid)
             in case recompute_from_main p updated_main expense other_expense of
                  Inl e \<Rightarrow> Inl e
                | Inr frames' \<Rightarrow>
                    Inr (frames', Success_message ''Entry added and summaries updated.'')))"

section \<open>Vocabulary of the properties\<close>

text \<open>
  Row \<open>i\<close> of a table has a numeric outstanding and the status that follows from it.
\<close>

definition status_row :: "dataframe \<Rightarrow> nat \<Rightarrow> bool" where
  "status_row df i =
     (case cell_at df ''Outstanding'' i of
        Some (Num x) \<Rightarrow> cell_at df ''Status'' i = Some (Str (if x \<le> 0 then ''Paid'' else ''Not Paid''))
      | _ \<Rightarrow> False)"

text \<open>
  The sum of a column over the rows of a table, as \<open>df[c].sum()\<close> gives it; a table that
  has no rows, or no such column, contributes nothing.
\<close>

definition column_total :: "dataframe \<Rightarrow> string \<Rightarrow> real" where
  "column_total df c = (case map_of df c of None \<Rightarrow> 0 | Some vs \<Rightarrow> series_sum vs)"

text \<open>The sum of the same cells in exact arithmetic, with no rounding.\<close>

definition exact_total :: "dataframe \<Rightarrow> string \<Rightarrow> real" where
  "exact_total df c =
     (case map_of df c of None \<Rightarrow> 0 | Some vs \<Rightarrow> sum_list (map float_of vs))"

text \<open>
  Cells that hold whole numbers whose absolute values add up to less than \<open>2 ^ 53\<close>: no
  addition of such cells rounds, in whatever order they are added.
\<close>

definition whole_cells :: "cell list \<Rightarrow> bool" where
  "whole_cells vs =
     (list_all (\<lambda>v. of_int \<lfloor>float_of v\<rfloor> = float_of v) vs \<and>
      sum_list (map (\<lambda>v. \<bar>float_of v\<bar>) vs) < 2 ^ 53)"

definition whole_amounts :: "dataframe \<Rightarrow> string \<Rightarrow> bool" where
  "whole_amounts df c = (case map_of df c of None \<Rightarrow> True | Some vs \<Rightarrow> whole_cells vs)"

text \<open>The value that a two-column metric table gives for a metric.\<close>

definition metric_value :: "dataframe \<Rightarrow> string \<Rightarrow> cell option" where
  "metric_value df name =
     (case (map_of df ''Metric'', map_of df ''Value'') of
        (Some ms, Some vs) \<Rightarrow> map_of (zip ms vs) (Str name)
      | _ \<Rightarrow> None)"

text \<open>The table that \<open>_empty_frames\<close> holds under a sheet name.\<close>

definition canonical_empty :: "string \<Rightarrow> dataframe" where
  "canonical_empty name =
     (if name = MAIN_SHEET then empty_table ledger_columns
      else if name = CUSTOMER_SHEET then empty_table customer_columns
      else empty_table metric_columns)"





text \<open>
  Data for the examples: a library that parses no text and no number; a ledger of two
  entries, with a stale status and a date that does not parse; an uploaded workbook that
  holds this ledger and a sheet of notes; a ledger sheet that has two headers and no row;
  and a ledger of one entry with a column of notes, with the bundle that recomputation
  makes of it for expenses 0 and 0.
\<close>

definition no_parse :: coercions where
  "no_parse = \<lparr>str_to_numeric = (\<lambda>s. None), str_to_datetime = (\<lambda>col s. None),
               num_to_datetime = (\<lambda>col x. None)\<rparr>"

definition example_ledger :: dataframe where
  "example_ledger =
     [(''Date'', [Day (Date 2024 1 1), Str ''soon'']),
      (''Customer'', [Str ''Alice'', Str ''Bob'']),
      (''Deposit Amount'', [Num 1000, Num 200]),
      (''Rate'', [Num 2, Num 1]),
      (''Total Amount'', [Num 2000, Num 200]),
      (''Amount Paid'', [Num 500, Num 300]),
      (''Outstanding'', [Num 1500,  Num (-100)]),
      (''Status'', [Str ''Paid'', NaN])]"

text \<open>
  A ledger of three entries, two of them of one customer, with whole amounts, and the
  bundle that recomputation makes of it for expenses 10 and 20.
\<close>

definition grouped_ledger :: dataframe where
  "grouped_ledger =
     [(''Date'', [Day (Date 2024 1 1), Day (Date 2024 1 2), Day (Date 2024 1 3)]),
      (''Customer'', [Str ''Alice'', Str ''Bob'', Str ''Alice'']),
      (''Deposit Amount'', [Num 1000, Num 200, Num 500]),
      (''Rate'', [Num 1, Num 1, Num 1]),
      (''Total Amount'', [Num 1000, Num 200, Num 500]),
      (''Amount Paid'', [Num 400, Num 200, Num 100]),
      (''Outstanding'', [Num 600, Num 0, Num 400]),
      (''Status'', [Str ''Not Paid'', Str ''Paid'', Str ''Not Paid''])]"

definition grouped_bundle :: frames where
  "grouped_bundle =
     [(MAIN_SHEET, grouped_ledger),
      (CUSTOMER_SHEET,
         [(''Customer'', [Str ''Alice'', Str ''Bob'']),
          (''Total Deposit'', [Num 1500, Num 200]),
          (''Total Paid'', [Num 500, Num 200]),
          (''Outstanding'', [Num 1000, Num 0]),
          (''Status'', [Str ''Not Paid'', Str ''Paid''])]),
      (PURCHASE_SHEET,
         [(''Metric'', purchase_metrics),
          (''Value'', [Num 1700, Num 700, Num 1000, Num (700 / 17), Num (1000 / 17)])]),
      (DAILY_SHEET,
         [(''Metric'', daily_metrics),
          (''Value'', [Num 10, Num 20, Num 1700, Num 700, Num 970])])]"

text \<open>
  The doubles that Python writes \<open>0.1\<close>, \<open>0.2\<close> and \<open>0.3\<close> (\<open>0x1.999999999999ap-4\<close>,
  \<open>0x1.999999999999ap-3\<close> and \<open>0x1.3333333333333p-2\<close>) and the double below \<open>0.2\<close>, which
  Python writes \<open>0.19999999999999998\<close> (\<open>0x1.9999999999999p-3\<close>); a ledger of three entries
  whose outstanding amounts are \<open>0.1\<close>, \<open>0.2\<close> and \<open>-0.3\<close>, the first and the third of
  one customer; its customer summary, where that customer's outstanding is
  \<open>-0.19999999999999998\<close>; and the bundle that recomputation makes of it for expenses 0
  and 0.
\<close>

definition tenth :: real where
  "tenth = 3602879701896397 / 2 ^ 55"

definition fifth :: real where
  "fifth = 3602879701896397 / 2 ^ 54"

definition three_tenths :: real where
  "three_tenths = 5404319552844595 / 2 ^ 54"

definition fifth_below :: real where
  "fifth_below = 7205759403792793 / 2 ^ 55"

definition rounding_ledger :: dataframe where
  "rounding_ledger =
     [(''Date'', [Day (Date 2024 1 1), Day (Date 2024 1 2), Day (Date 2024 1 3)]),
      (''Customer'', [Str ''A'', Str ''B'', Str ''A'']),
      (''Deposit Amount'', [Num 0, Num 0, Num 0]),
      (''Rate'', [Num 0, Num 0, Num 0]),
      (''Total Amount'', [Num 0, Num 0, Num 0]),
      (''Amount Paid'', [Num 0, Num 0, Num 0]),
      (''Outstanding'', [Num tenth, Num fifth, Num (- three_tenths)]),
      (''Status'', [Str ''Not Paid'', Str ''Not Paid'', Str ''Paid''])]"

definition rounding_summary :: dataframe where
  "rounding_summary =
     [(''Customer'', [Str ''A'', Str ''B'']),
      (''Total Deposit'', [Num 0, Num 0]),
      (''Total Paid'', [Num 0, Num 0]),
      (''Outstanding'', [Num (- fifth_below), Num fifth]),
      (''Status'', [Str ''Paid'', Str ''Not Paid''])]"

definition rounding_bundle :: frames where
  "rounding_bundle =
     [(MAIN_SHEET, rounding_ledger),
      (CUSTOMER_SHEET, rounding_summary),
      (PURCHASE_SHEET,
         [(''Metric'', purchase_metrics),
          (''Value'', [Num 0, Num 0, Num (1 / 2 ^ 54), Num 0, Num 0])]),
      (DAILY_SHEET,
         [(''Metric'', daily_metrics),
          (''Value'', [Num 0, Num 0, Num 0, Num 0, Num 0])])]"

definition example_upload :: upload where
  "example_upload =
     Workbook [(''Notes'', [(''Text'', [Str ''hello''])]), (MAIN_SHEET, example_ledger)]"

definition header_only_ledger :: dataframe where
  "header_only_ledger = [(''Customer'', []), (''Date'', [])]"










section \<open>Rounding to a double\<close>

lemma set_normal_exponents: "set normal_exponents = {- 1022 .. 1023}"
  unfolding normal_exponents_def by (rule set_upto)

lemma round_even_int: "round_even (of_int n) = n"
  by (simp add: round_even_def)

lemma binade_unique:
  fixes a :: real
  assumes "2 powi e \<le> a" "a < 2 powi (e + 1)" "2 powi e' \<le> a" "a < 2 powi (e' + 1)"
  shows "e' = e"
proof (rule ccontr)
  assume "e' \<noteq> e"
  then consider "e' + 1 \<le> e" | "e + 1 \<le> e'" by linarith
  then show False
  proof cases
    case 1
    then have "(2::real) powi (e' + 1) \<le> 2 powi e"
      by (intro power_int_increasing) simp_all
    with assms show False by linarith
  next
    case 2
    then have "(2::real) powi (e + 1) \<le> 2 powi e'"
      by (intro power_int_increasing) simp_all
    with assms show False by linarith
  qed
qed

lemma find_unique:
  assumes "P e" "e \<in> set xs" "\<And>e'. e' \<in> set xs \<Longrightarrow> P e' \<Longrightarrow> e' = e"
  shows "find P xs = Some e"
proof (cases "find P xs")
  case None
  then show ?thesis using assms(1,2) by (auto simp: find_None_iff)
next
  case (Some e')
  then have "P e'" "e' \<in> set xs"
    by (auto simp: find_Some_iff)
  with assms(3) Some show ?thesis by simp
qed

lemma exponent64_eq:
  assumes "2 powi e \<le> \<bar>x\<bar>" "\<bar>x\<bar> < 2 powi (e + 1)" "- 1022 \<le> e" "e \<le> 1023"
  shows "exponent64 x = e"
proof -
  have "find (\<lambda>e. 2 powi e \<le> \<bar>x\<bar> \<and> \<bar>x\<bar> < 2 powi (e + 1)) normal_exponents = Some e"
  proof (rule find_unique)
    show "2 powi e \<le> \<bar>x\<bar> \<and> \<bar>x\<bar> < 2 powi (e + 1)"
      using assms(1,2) by simp
    show "e \<in> set normal_exponents"
      using assms(3,4) by (simp add: set_normal_exponents)
    show "e' = e" if "2 powi e' \<le> \<bar>x\<bar> \<and> \<bar>x\<bar> < 2 powi (e' + 1)" for e'
      using that assms(1,2) binade_unique [of e "\<bar>x\<bar>" e'] by blast
  qed
  then show ?thesis by (simp add: exponent64_def)
qed

lemma round64_zero: "round64 0 = 0"
  unfolding round64_def Let_def by (simp add: round_even_def)

lemma round64_eval:
  assumes "2 powi e \<le> \<bar>x\<bar>" "\<bar>x\<bar> < 2 powi (e + 1)" "- 1022 \<le> e" "e \<le> 1023"
  shows "round64 x = of_int (round_even (x / 2 powi (e - 52))) * 2 powi (e - 52)"
  by (simp add: round64_def Let_def exponent64_eq [OF assms])

lemma round64_exact:
  assumes "2 powi e \<le> \<bar>x\<bar>" "\<bar>x\<bar> < 2 powi (e + 1)" "- 1022 \<le> e" "e \<le> 1023"
    "x / 2 powi (e - 52) = of_int n"
  shows "round64 x = x"
proof -
  have "round64 x = of_int n * 2 powi (e - 52)"
    by (simp add: round64_eval [OF assms(1-4)] assms(5) round_even_int)
  also have "\<dots> = x"
    using assms(5) by (simp add: field_simps)
  finally show ?thesis .
qed


lemma round64_sum_example: "round64 (10808639105689191 / 2 ^ 55) = 5404319552844596 / 2 ^ 54"
  by (subst round64_eval [where e = "-2"]) (simp_all add: power_int_minus round_even_def)


lemma int_binade:
  fixes k :: nat
  assumes "1 \<le> k" "k < 2 ^ 53"
  shows "\<exists>n \<le> 52. (2::nat) ^ n \<le> k \<and> k < 2 ^ (n + 1)"
proof -
  from ex_power_ivl1 [of 2 k] assms(1) obtain n where n: "2 ^ n \<le> k" "k < 2 ^ (n + 1)"
    by auto
  have lt: "(2::nat) ^ n < 2 ^ 53" using n(1) assms(2) by linarith
  have "n < 53" by (rule power_less_imp_less_exp [OF _ lt]) simp
  with n show ?thesis by (intro exI [of _ n]) simp
qed

lemma round64_int:
  assumes "\<bar>z\<bar> < 2 ^ 53"
  shows "round64 (of_int z) = of_int z"
proof (cases "z = 0")
  case True
  then show ?thesis by (simp add: round64_zero)
next
  case False
  define k where "k = nat \<bar>z\<bar>"
  have k: "1 \<le> k" "k < 2 ^ 53"
    using False assms by (simp_all add: k_def nat_less_iff)
  from int_binade [OF k] obtain n where n: "n \<le> 52" "2 ^ n \<le> k" "k < 2 ^ (n + 1)"
    by blast
  have az: "\<bar>of_int z :: real\<bar> = of_nat k"
    by (simp add: k_def)
  have 1: "2 powi (int n) \<le> \<bar>of_int z :: real\<bar>"
    unfolding az power_int_of_nat using n(2) by (metis of_nat_le_iff of_nat_numeral of_nat_power)
  have 2: "\<bar>of_int z :: real\<bar> < 2 powi (int n + 1)"
  proof -
    have "(of_nat k :: real) < of_nat (2 ^ (n + 1))"
      using n(3) by (simp only: of_nat_less_iff)
    also have "\<dots> = 2 powi (int n + 1)"
      by (simp add: power_int_add power_int_of_nat)
    finally show ?thesis unfolding az .
  qed
  have 3: "of_int z / 2 powi (int n - 52) = (of_int (z * 2 ^ (52 - n)) :: real)"
  proof -
    have "int n - 52 = - int (52 - n)" using n(1) by simp
    then have "(2::real) powi (int n - 52) = inverse (2 ^ (52 - n))"
      by (simp add: power_int_minus power_int_of_nat del: of_nat_diff)
    then show ?thesis by (simp add: field_simps)
  qed
  show ?thesis
    by (rule round64_exact [OF 1 2 _ _ 3]) (use n(1) in simp_all)
qed

lemma fadd_int:
  assumes "\<bar>a + b\<bar> < 2 ^ 53"
  shows "fadd (of_int a) (of_int b) = of_int (a + b)"
  using round64_int [OF assms] by (simp add: fadd_def)


lemma fadd_whole:
  assumes "a \<in> \<int>" "b \<in> \<int>" "\<bar>a + b\<bar> < 2 ^ 53"
  shows "fadd a b = a + b"
proof -
  from assms(1,2) obtain i j where ij: "a = of_int i" "b = of_int j"
    by (auto elim!: Ints_cases)
  have "\<bar>i + j\<bar> < 2 ^ 53"
  proof -
    have "\<bar>of_int (i + j) :: real\<bar> < of_int (2 ^ 53)" using assms(3) by (simp add: ij)
    then have "(of_int \<bar>i + j\<bar> :: real) < of_int (2 ^ 53)" by (simp only: of_int_abs)
    then show ?thesis by (simp only: of_int_less_iff)
  qed
  from fadd_int [OF this] show ?thesis by (simp add: ij)
qed

lemma Ints_sum_list: "(\<And>x. x \<in> set xs \<Longrightarrow> x \<in> \<int>) \<Longrightarrow> sum_list xs \<in> (\<int> :: real set)"
  by (induction xs) auto

lemma abs_sum_list_le: "\<bar>sum_list xs\<bar> \<le> sum_list (map abs (xs :: real list))"
  by (induction xs) auto

lemma foldl_fadd_whole:
  assumes "a \<in> \<int>" "\<And>x. x \<in> set xs \<Longrightarrow> x \<in> \<int>" "\<bar>a\<bar> + sum_list (map abs xs) < 2 ^ 53"
  shows "foldl fadd a xs = a + sum_list xs"
  using assms
proof (induction xs arbitrary: a)
  case Nil
  then show ?case by simp
next
  case (Cons x xs)
  have x: "x \<in> \<int>" using Cons.prems(2) by simp
  have s: "0 \<le> sum_list (map abs xs)"
    by (rule sum_list_nonneg) auto
  have "\<bar>a + x\<bar> \<le> \<bar>a\<bar> + \<bar>x\<bar>" by simp
  with Cons.prems(3) s have b: "\<bar>a + x\<bar> < 2 ^ 53" "\<bar>a + x\<bar> + sum_list (map abs xs) < 2 ^ 53"
    by simp_all
  have f: "fadd a x = a + x"
    by (rule fadd_whole [OF Cons.prems(1) x b(1)])
  have "foldl fadd (a + x) xs = a + x + sum_list xs"
    using Cons.prems(1,2) x b(2) by (intro Cons.IH) auto
  then show ?case by (simp add: f)
qed

lemma sum_list_abs_filter_le:
  "sum_list (map (\<lambda>x. \<bar>f x :: real\<bar>) (filter P xs)) \<le> sum_list (map (\<lambda>x. \<bar>f x\<bar>) xs)"
  by (induction xs) auto

lemma whole_cells_iff:
  "whole_cells vs =
     (list_all (\<lambda>v. float_of v \<in> \<int>) vs \<and> sum_list (map (\<lambda>v. \<bar>float_of v\<bar>) vs) < 2 ^ 53)"
proof -
  have "(of_int \<lfloor>x\<rfloor> = x) = (x \<in> \<int>)" for x :: real
    by (auto simp: Ints_def)
  then show ?thesis by (simp add: whole_cells_def)
qed

lemma whole_cells_Ints:
  assumes "whole_cells vs" "x \<in> set (map float_of vs)"
  shows "x \<in> \<int>"
proof -
  from assms(2) obtain v where v: "v \<in> set vs" "x = float_of v" by auto
  with assms(1) show ?thesis
    by (simp add: whole_cells_iff list_all_iff)
qed

lemma series_sum_whole:
  assumes "whole_cells vs"
  shows "series_sum vs = sum_list (map float_of vs)"
proof -
  have "foldl fadd 0 (map float_of vs) = 0 + sum_list (map float_of vs)"
  proof (rule foldl_fadd_whole)
    show "(0::real) \<in> \<int>" by simp
    show "x \<in> \<int>" if "x \<in> set (map float_of vs)" for x
      using assms that by (rule whole_cells_Ints)
    show "\<bar>0::real\<bar> + sum_list (map abs (map float_of vs)) < 2 ^ 53"
      using assms by (simp add: whole_cells_iff comp_def)
  qed
  then show ?thesis by (simp add: series_sum_def)
qed

lemma fadd_tenth: "fadd 0 tenth = tenth"
  unfolding fadd_def add_0 tenth_def
  by (rule round64_exact [where e = "-4" and n = 7205759403792794]) (simp_all add: power_int_minus)

lemma fadd_fifth: "fadd 0 fifth = fifth"
  unfolding fadd_def add_0 fifth_def
  by (rule round64_exact [where e = "-3" and n = 7205759403792794]) (simp_all add: power_int_minus)

lemma fadd_tenth_fifth: "fadd tenth fifth = 5404319552844596 / 2 ^ 54"
proof -
  have "tenth + fifth = 10808639105689191 / 2 ^ 55"
    by (simp add: tenth_def fifth_def)
  then show ?thesis
    by (simp only: fadd_def round64_sum_example)
qed

lemma fadd_ledger_total: "fadd (5404319552844596 / 2 ^ 54) (- three_tenths) = 1 / 2 ^ 54"
proof -
  have "5404319552844596 / 2 ^ 54 + - three_tenths = 1 / 2 ^ 54"
    by (simp add: three_tenths_def)
  moreover have "round64 (1 / 2 ^ 54) = 1 / 2 ^ 54"
    by (rule round64_exact [where e = "-54" and n = 4503599627370496]) (simp_all add: power_int_minus)
  ultimately show ?thesis
    by (simp only: fadd_def)
qed

lemma round64_fifth_below: "round64 (- fifth_below) = - fifth_below"
  unfolding fifth_below_def
  by (rule round64_exact [where e = "-3" and n = "- 7205759403792793"]) (simp_all add: power_int_minus)

lemma fadd_tenth_three_tenths: "fadd tenth (- three_tenths) = - fifth_below"
proof -
  have "tenth + - three_tenths = - fifth_below"
    by (simp add: tenth_def three_tenths_def fifth_below_def)
  then show ?thesis
    by (simp only: fadd_def round64_fifth_below)
qed

lemma fadd_group_first: "fadd 0 (- fifth_below) = - fifth_below"
  unfolding fadd_def add_0 by (rule round64_fifth_below)

lemma fadd_summary_total: "fadd (- fifth_below) fifth = 1 / 2 ^ 55"
proof -
  have "- fifth_below + fifth = 1 / 2 ^ 55"
    by (simp add: fifth_def fifth_below_def)
  moreover have "round64 (1 / 2 ^ 55) = 1 / 2 ^ 55"
    by (rule round64_exact [where e = "-55" and n = 4503599627370496]) (simp_all add: power_int_minus)
  ultimately show ?thesis
    by (simp only: fadd_def)
qed

lemma rounding_ledger_sum:
  "series_sum [Num tenth, Num fifth, Num (- three_tenths)] = 1 / 2 ^ 54"
  by (simp only: series_sum_def list.map float_of.simps foldl_Cons foldl_Nil fadd_tenth
      fadd_tenth_fifth fadd_ledger_total)

lemma rounding_group_sum:
  "series_sum [Num tenth, Num (- three_tenths)] = - fifth_below"
  by (simp only: series_sum_def list.map float_of.simps foldl_Cons foldl_Nil fadd_tenth
      fadd_tenth_three_tenths)

lemma rounding_single_sum: "series_sum [Num fifth] = fifth"
  by (simp only: series_sum_def list.map float_of.simps foldl_Cons foldl_Nil fadd_fifth)

lemma rounding_summary_sum:
  "series_sum [Num (- fifth_below), Num fifth] = 1 / 2 ^ 55"
  by (simp only: series_sum_def list.map float_of.simps foldl_Cons foldl_Nil fadd_group_first
      fadd_summary_total)

section \<open>Tables as association lists\<close>

lemma nrows_update:
  "df \<noteq> [] \<Longrightarrow> length vs = nrows df \<Longrightarrow> nrows (AList.update c vs df) = nrows df"
  by (cases df) (auto simp: nrows_def)

lemma set_update_subset: "set (AList.update c vs df) \<subseteq> insert (c, vs) (set df)"
  by (induction df) auto

lemma wf_frame_update:
  assumes "wf_frame df" "length vs = nrows df"
  shows "wf_frame (AList.update c vs df)"
proof (cases "df = []")
  case True
  then show ?thesis by (simp add: wf_frame_def nrows_def)
next
  case False
  then have n: "nrows (AList.update c vs df) = nrows df"
    using assms(2) by (rule nrows_update)
  show ?thesis
    unfolding wf_frame_def n
    using assms set_update_subset [of c vs df] by (auto simp: wf_frame_def)
qed

lemma wf_frame_column_length:
  "wf_frame df \<Longrightarrow> map_of df c = Some vs \<Longrightarrow> length vs = nrows df"
  by (auto simp: wf_frame_def dest!: map_of_SomeD)

lemma apply_to_column_lookup:
  "map_of (apply_to_column f c df) c' =
     (if c' = c then map_option f (map_of df c) else map_of df c')"
  by (auto simp: apply_to_column_def update_conv' split: option.splits)

lemma apply_to_column_fixed:
  "(\<And>vs. map_of df c = Some vs \<Longrightarrow> f vs = vs) \<Longrightarrow> apply_to_column f c df = df"
  by (auto simp: apply_to_column_def update_triv split: option.splits)

lemma apply_to_column_wf:
  "wf_frame df \<Longrightarrow> (\<And>vs. length (f vs) = length vs) \<Longrightarrow> wf_frame (apply_to_column f c df)"
  by (auto simp: apply_to_column_def wf_frame_update wf_frame_column_length split: option.splits)

lemma apply_to_column_nrows:
  "wf_frame df \<Longrightarrow> (\<And>vs. length (f vs) = length vs) \<Longrightarrow> nrows (apply_to_column f c df) = nrows df"
  by (auto simp: apply_to_column_def wf_frame_column_length split: option.splits
      intro!: nrows_update)

lemma derive_status_lookup:
  "map_of (derive_status df) c =
     (if c = ''Status'' \<and> map_of df ''Outstanding'' \<noteq> None
      then map_option (map status_lambda) (map_of df ''Outstanding'')
      else map_of df c)"
  by (auto simp: derive_status_def update_conv' split: option.splits)

lemma derive_status_wf: "wf_frame df \<Longrightarrow> wf_frame (derive_status df)"
  by (auto simp: derive_status_def wf_frame_update wf_frame_column_length split: option.splits)

lemma derive_status_nrows: "wf_frame df \<Longrightarrow> nrows (derive_status df) = nrows df"
  by (auto simp: derive_status_def wf_frame_column_length split: option.splits
      intro!: nrows_update)

lemma numeric_pass_lookup:
  "map_of (numeric_pass p df) c =
     (if c \<in> set numeric_columns then map_option (map (numeric_cell p)) (map_of df c)
      else map_of df c)"
  by (simp add: numeric_pass_def numeric_columns_def apply_to_column_lookup)

lemma numeric_pass_wf: "wf_frame df \<Longrightarrow> wf_frame (numeric_pass p df)"
  by (simp add: numeric_pass_def numeric_columns_def apply_to_column_wf)

lemma numeric_pass_nrows: "wf_frame df \<Longrightarrow> nrows (numeric_pass p df) = nrows df"
  by (simp add: numeric_pass_def numeric_columns_def apply_to_column_wf apply_to_column_nrows)

lemma sanitize_empty: "df_empty df \<Longrightarrow> sanitize_types p df = df"
  by (simp add: sanitize_types_def)

lemma sanitize_lookup:
  assumes "\<not> df_empty df"
  shows "map_of (sanitize_types p df) c =
     (if c = ''Status'' \<and> map_of df ''Outstanding'' \<noteq> None
      then map_option (\<lambda>vs. map status_lambda (map (numeric_cell p) vs)) (map_of df ''Outstanding'')
      else if c = ''Date'' then map_option (\<lambda>vs. map (to_date p vs) vs) (map_of df ''Date'')
      else if c \<in> set numeric_columns then map_option (map (numeric_cell p)) (map_of df c)
      else map_of df c)"
  using assms
  by (auto simp: sanitize_types_def Let_def derive_status_lookup numeric_pass_lookup
      apply_to_column_lookup numeric_columns_def option.map_comp comp_def)

lemma sanitize_numeric_cells:
  assumes "\<not> df_empty df" "c \<in> set numeric_columns" "map_of (sanitize_types p df) c = Some vs"
  shows "\<forall>v \<in> set vs. \<exists>x. v = Num x"
  using assms(2,3)
  by (auto simp: sanitize_lookup [OF assms(1)] numeric_columns_def numeric_cell_def)

lemma sanitize_wf: "wf_frame df \<Longrightarrow> wf_frame (sanitize_types p df)"
  by (simp add: sanitize_types_def Let_def derive_status_wf numeric_pass_wf apply_to_column_wf)

lemma sanitize_nrows: "wf_frame df \<Longrightarrow> nrows (sanitize_types p df) = nrows df"
  by (simp add: sanitize_types_def Let_def derive_status_nrows numeric_pass_nrows numeric_pass_wf
      apply_to_column_wf apply_to_column_nrows)

lemma to_date_idem: "to_date p col (to_date p col' v) = to_date p col' v"
  by (cases v) (auto split: option.splits)

lemma numeric_cell_idem: "numeric_cell p (numeric_cell p v) = numeric_cell p v"
  by (simp add: numeric_cell_def)

lemma numeric_pass_fixed:
  assumes "\<And>c vs. c \<in> set numeric_columns \<Longrightarrow> map_of df c = Some vs \<Longrightarrow> map (numeric_cell p) vs = vs"
  shows "numeric_pass p df = df"
proof -
  have "apply_to_column (map (numeric_cell p)) c df = df" if "c \<in> set numeric_columns" for c
    using assms [OF that] by (rule apply_to_column_fixed)
  then show ?thesis
    by (simp add: numeric_pass_def numeric_columns_def)
qed

lemma derive_status_fixed:
  assumes "\<And>vs. map_of df ''Outstanding'' = Some vs \<Longrightarrow> map_of df ''Status'' = Some (map status_lambda vs)"
  shows "derive_status df = df"
  using assms by (auto simp: derive_status_def update_triv split: option.splits)

lemma sanitize_idem: "sanitize_types p (sanitize_types p df) = sanitize_types p df"
proof (cases "df_empty df \<or> df_empty (sanitize_types p df)")
  case True
  then show ?thesis by (auto simp: sanitize_empty)
next
  case False
  define R where "R = sanitize_types p df"
  have ne: "\<not> df_empty df" "\<not> df_empty R" using False by (simp_all add: R_def)
  have look: "\<And>c. map_of R c =
     (if c = ''Status'' \<and> map_of df ''Outstanding'' \<noteq> None
      then map_option (\<lambda>vs. map status_lambda (map (numeric_cell p) vs)) (map_of df ''Outstanding'')
      else if c = ''Date'' then map_option (\<lambda>vs. map (to_date p vs) vs) (map_of df ''Date'')
      else if c \<in> set numeric_columns then map_option (map (numeric_cell p)) (map_of df c)
      else map_of df c)"
    unfolding R_def by (rule sanitize_lookup [OF ne(1)])
  have d: "apply_to_column (\<lambda>vs. map (to_date p vs) vs) ''Date'' R = R"
    by (rule apply_to_column_fixed) (auto simp: look to_date_idem)
  have n: "numeric_pass p R = R"
    by (rule numeric_pass_fixed) (auto simp: look numeric_columns_def numeric_cell_idem)
  have s: "derive_status R = R"
    by (rule derive_status_fixed) (auto simp: look numeric_columns_def)
  have "sanitize_types p R = derive_status (numeric_pass p
      (apply_to_column (\<lambda>vs. map (to_date p vs) vs) ''Date'' R))"
    using ne(2) by (simp add: sanitize_types_def)
  also have "\<dots> = R" by (simp add: d n s)
  finally show ?thesis by (simp add: R_def)
qed

section \<open>The result of a recomputation\<close>

lemma share_eq: "share x t = Inr (if t \<noteq> 0 then x / t * 100 else 0)"
  by (simp add: share_def py_div_def)

lemma customer_summary_Inr:
  assumes "customer_summary main = Inr cust"
  shows "\<exists>ks dep paid out tot.
           map_of main ''Customer'' = Some ks \<and> map_of main ''Deposit Amount'' = Some dep \<and>
           map_of main ''Amount Paid'' = Some paid \<and> map_of main ''Outstanding'' = Some out \<and>
           map_of main ''Total Amount'' = Some tot \<and>
           cust = [(''Customer'', group_keys ks),
                   (''Total Deposit'', map (group_sum ks dep) (group_keys ks)),
                   (''Total Paid'', map (group_sum ks paid) (group_keys ks)),
                   (''Outstanding'', map (group_sum ks out) (group_keys ks)),
                   (''Status'', map status_lambda (map (group_sum ks out) (group_keys ks)))]"
  using assms
  by (auto simp: customer_summary_def groupby_sum_def rename_columns_def getitem_def
      customer_columns_def Let_def split: option.splits sum.splits)

lemma customer_summary_present:
  assumes "map_of main ''Customer'' = Some ks" "map_of main ''Deposit Amount'' = Some dep"
    "map_of main ''Amount Paid'' = Some paid" "map_of main ''Outstanding'' = Some out"
    "map_of main ''Total Amount'' = Some tot"
  shows "customer_summary main =
           Inr [(''Customer'', group_keys ks),
                   (''Total Deposit'', map (group_sum ks dep) (group_keys ks)),
                   (''Total Paid'', map (group_sum ks paid) (group_keys ks)),
                   (''Outstanding'', map (group_sum ks out) (group_keys ks)),
                   (''Status'', map status_lambda (map (group_sum ks out) (group_keys ks)))]"
  using assms
  by (simp add: customer_summary_def groupby_sum_def rename_columns_def getitem_def
      customer_columns_def Let_def)

lemma totals_Inr:
  assumes "totals main = Inr (cust, a, b, c)"
  shows "(df_empty main \<and> cust = empty_table customer_columns \<and> a = 0 \<and> b = 0 \<and> c = 0) \<or>
         (\<not> df_empty main \<and> (\<exists>ks dep paid out tot.
           map_of main ''Customer'' = Some ks \<and> map_of main ''Deposit Amount'' = Some dep \<and>
           map_of main ''Amount Paid'' = Some paid \<and> map_of main ''Outstanding'' = Some out \<and>
           map_of main ''Total Amount'' = Some tot \<and>
           cust = [(''Customer'', group_keys ks),
                   (''Total Deposit'', map (group_sum ks dep) (group_keys ks)),
                   (''Total Paid'', map (group_sum ks paid) (group_keys ks)),
                   (''Outstanding'', map (group_sum ks out) (group_keys ks)),
                   (''Status'', map status_lambda (map (group_sum ks out) (group_keys ks)))] \<and>
           a = series_sum paid \<and> b = series_sum out \<and> c = series_sum tot))"
proof (cases "df_empty main")
  case True
  then show ?thesis using assms by (simp add: totals_def)
next
  case False
  then obtain cu where cu: "customer_summary main = Inr cu"
    using assms by (auto simp: totals_def split: sum.splits)
  from customer_summary_Inr [OF cu] obtain ks dep paid out tot where
    l: "map_of main ''Customer'' = Some ks" "map_of main ''Deposit Amount'' = Some dep"
      "map_of main ''Amount Paid'' = Some paid" "map_of main ''Outstanding'' = Some out"
      "map_of main ''Total Amount'' = Some tot"
    and c: "cu = [(''Customer'', group_keys ks),
                   (''Total Deposit'', map (group_sum ks dep) (group_keys ks)),
                   (''Total Paid'', map (group_sum ks paid) (group_keys ks)),
                   (''Outstanding'', map (group_sum ks out) (group_keys ks)),
                   (''Status'', map status_lambda (map (group_sum ks out) (group_keys ks)))]"
    by blast
  have "totals main = Inr (cu, series_sum paid, series_sum out, series_sum tot)"
    using False cu l by (simp add: totals_def getitem_def)
  with assms have "cust = cu" "a = series_sum paid" "b = series_sum out" "c = series_sum tot"
    by simp_all
  then show ?thesis using False l c by blast
qed

lemma recompute_totals:
  assumes "totals (sanitize_types p df) = Inr (cust, a, b, c)"
  shows "recompute_from_main p df e oe = 
     Inr [(MAIN_SHEET, sanitize_types p df), (CUSTOMER_SHEET, cust),
          (PURCHASE_SHEET, [(''Metric'', purchase_metrics),
       (''Value'', [Num c, Num a, Num b, Num (if c \<noteq> 0 then a / c * 100 else 0),
                    Num (if c \<noteq> 0 then b / c * 100 else 0)])]),
          (DAILY_SHEET, [(''Metric'', daily_metrics),
             (''Value'', [Num e, Num oe, Num c, Num a, Num (c - a - e - oe)])])]"
  using assms
  by (simp add: recompute_from_main_def Let_def share_eq)

lemma recompute_Inr:
  assumes "recompute_from_main p df e oe = Inr T"
  shows "\<exists>cust a b c. totals (sanitize_types p df) = Inr (cust, a, b, c) \<and>
     T = [(MAIN_SHEET, sanitize_types p df), (CUSTOMER_SHEET, cust),
          (PURCHASE_SHEET, [(''Metric'', purchase_metrics),
       (''Value'', [Num c, Num a, Num b, Num (if c \<noteq> 0 then a / c * 100 else 0),
                    Num (if c \<noteq> 0 then b / c * 100 else 0)])]),
          (DAILY_SHEET, [(''Metric'', daily_metrics),
             (''Value'', [Num e, Num oe, Num c, Num a, Num (c - a - e - oe)])])]"
proof -
  obtain cust a b c where t: "totals (sanitize_types p df) = Inr (cust, a, b, c)"
    using assms
    by (cases "totals (sanitize_types p df)") (auto simp: recompute_from_main_def Let_def)
  from recompute_totals [OF t, of e oe] assms show ?thesis
    using t by simp
qed

lemma recompute_Inl:
  "recompute_from_main p df e oe = Inl err \<longleftrightarrow> totals (sanitize_types p df) = Inl err"
  by (auto simp: recompute_from_main_def Let_def share_eq split: sum.splits prod.splits)

section \<open>Status and outstanding\<close>

lemma status_rows:
  assumes "map_of d ''Outstanding'' = Some os" "map_of d ''Status'' = Some (map status_lambda os)"
    "\<And>v. v \<in> set os \<Longrightarrow> \<exists>x. v = Num x" "length os = n"
  shows "list_all (status_row d) [0..<n]"
proof -
  have "status_row d i" if "i < n" for i
  proof -
    from that assms(4) have "os ! i \<in> set os" by simp
    then obtain x where "os ! i = Num x" using assms(3) by blast
    then show ?thesis
      using that assms(1,2,4) by (simp add: status_row_def cell_at_def)
  qed
  then show ?thesis by (simp add: list_all_iff)
qed

lemma nrows_empty: "df_empty df \<Longrightarrow> nrows df = 0"
  by (auto simp: df_empty_def nrows_def)

lemma sanitize_status_rows:
  assumes "wf_frame df" "map_of df ''Outstanding'' = Some vs"
  shows "list_all (status_row (sanitize_types p df)) [0..<nrows df]"
proof (cases "df_empty df")
  case True
  then show ?thesis by (simp add: nrows_empty)
next
  case False
  show ?thesis
  proof (rule status_rows)
    show "map_of (sanitize_types p df) ''Outstanding'' = Some (map (numeric_cell p) vs)"
      using assms(2) by (simp add: sanitize_lookup [OF False] numeric_columns_def)
    show "map_of (sanitize_types p df) ''Status'' = Some (map status_lambda (map (numeric_cell p) vs))"
      using assms(2) by (simp add: sanitize_lookup [OF False])
    show "\<exists>x. v = Num x" if "v \<in> set (map (numeric_cell p) vs)" for v
      using that by (auto simp: numeric_cell_def)
    show "length (map (numeric_cell p) vs) = nrows df"
      using assms by (simp add: wf_frame_column_length)
  qed
qed

lemma sanitize_empty_iff: "wf_frame df \<Longrightarrow> df_empty (sanitize_types p df) = df_empty df"
proof (cases "df_empty df")
  case True
  then show ?thesis by (simp add: sanitize_empty)
next
  case False
  assume w: "wf_frame df"
  from False have "df \<noteq> []" by (simp add: df_empty_def)
  then have "map_of df (fst (hd df)) \<noteq> None"
    by (cases df) auto
  then obtain c where "map_of df c \<noteq> None" ..
  then have "map_of (sanitize_types p df) c \<noteq> None"
    by (auto simp: sanitize_lookup [OF False])
  then have "sanitize_types p df \<noteq> []" by auto
  then show ?thesis using False w by (simp add: df_empty_def sanitize_nrows)
qed

lemma sanitize_lookup_outstanding:
  assumes "\<not> df_empty df"
  shows "map_of (sanitize_types p df) ''Outstanding'' = map_option (map (numeric_cell p)) (map_of df ''Outstanding'')"
  by (simp add: sanitize_lookup [OF assms] numeric_columns_def)

lemma group_sum_Num: "v \<in> set (map (group_sum ks vs) keys) \<Longrightarrow> \<exists>x. v = Num x"
  by (auto simp: group_sum_def)

lemma nrows_Cons: "nrows ((c, vs) # rest) = length vs"
  by (simp add: nrows_def)

lemma example_sanitize:
  "sanitize_types no_parse example_ledger = 
     [(''Date'', [Day (Date 2024 1 1), NaN]),
      (''Customer'', [Str ''Alice'', Str ''Bob'']),
      (''Deposit Amount'', [Num 1000, Num 200]),
      (''Rate'', [Num 2, Num 1]),
      (''Total Amount'', [Num 2000, Num 200]),
      (''Amount Paid'', [Num 500, Num 300]),
      (''Outstanding'', [Num 1500,  Num (-100)]),
      (''Status'', [Str ''Not Paid'', Str ''Paid''])]"
  by (simp add: example_ledger_def sanitize_types_def df_empty_def nrows_def Let_def apply_to_column_def
      numeric_pass_def numeric_columns_def derive_status_def numeric_cell_def no_parse_def)

lemma example_keys: "group_keys [Str ''Alice'', Str ''Bob''] = [Str ''Alice'', Str ''Bob'']"
  by (simp add: group_keys_def less_eq_prod_def list_le_def list_less_def)

lemma example_customer:
  "customer_summary (sanitize_types no_parse example_ledger) = Inr 
     [(''Customer'', [Str ''Alice'', Str ''Bob'']),
      (''Total Deposit'', [Num 1000, Num 200]),
      (''Total Paid'', [Num 500, Num 300]),
      (''Outstanding'', [Num 1500,  Num (-100)]),
      (''Status'', [Str ''Not Paid'', Str ''Paid''])]"
  by (simp add: example_sanitize customer_summary_def groupby_sum_def getitem_def rename_columns_def example_keys
      group_sum_def series_sum_whole whole_cells_iff customer_columns_def)

lemma example_recompute:
  "recompute_from_main no_parse example_ledger 10 20 =
     Inr [(MAIN_SHEET,
           [(''Date'', [Day (Date 2024 1 1), NaN]),
            (''Customer'', [Str ''Alice'', Str ''Bob'']),
            (''Deposit Amount'', [Num 1000, Num 200]),
            (''Rate'', [Num 2, Num 1]),
            (''Total Amount'', [Num 2000, Num 200]),
            (''Amount Paid'', [Num 500, Num 300]),
            (''Outstanding'', [Num 1500,  Num (-100)]),
            (''Status'', [Str ''Not Paid'', Str ''Paid''])]),
          (CUSTOMER_SHEET,
           [(''Customer'', [Str ''Alice'', Str ''Bob'']),
            (''Total Deposit'', [Num 1000, Num 200]),
            (''Total Paid'', [Num 500, Num 300]),
            (''Outstanding'', [Num 1500,  Num (-100)]),
            (''Status'', [Str ''Not Paid'', Str ''Paid''])]),
          (PURCHASE_SHEET,
           [(''Metric'', purchase_metrics),
            (''Value'', [Num 2200, Num 800, Num 1400, Num (400 / 11), Num (700 / 11)])]),
          (DAILY_SHEET,
           [(''Metric'', daily_metrics),
            (''Value'', [Num 10, Num 20, Num 2200, Num 800, Num 1370])])]"
proof -
  have "totals (sanitize_types no_parse example_ledger) =
          Inr ([(''Customer'', [Str ''Alice'', Str ''Bob'']),
            (''Total Deposit'', [Num 1000, Num 200]),
            (''Total Paid'', [Num 500, Num 300]),
            (''Outstanding'', [Num 1500,  Num (-100)]),
            (''Status'', [Str ''Not Paid'', Str ''Paid''])], 800, 1400, 2200)"
    unfolding totals_def example_customer
    by (simp add: example_sanitize df_empty_def nrows_def getitem_def series_sum_whole
        whole_cells_iff)
  from recompute_totals [OF this, of 10 20] show ?thesis
    by (simp add: example_sanitize)
qed

section \<open>Sums over groups and over the ledger\<close>

lemma sum_list_delta:
  "distinct keys \<Longrightarrow> sum_list (map (\<lambda>k. if a = k then (b::real) else 0) keys) = (if a \<in> set keys then b else 0)"
  by (induction keys) auto

lemma sum_list_groups:
  fixes f :: "'k \<times> 'v \<Rightarrow> real"
  assumes "distinct keys" "fst ` set ps \<subseteq> set keys"
  shows "sum_list (map (\<lambda>k. sum_list (map f (filter (\<lambda>kv. fst kv = k) ps))) keys) = sum_list (map f ps)"
  using assms(2)
proof (induction ps)
  case Nil
  then show ?case by simp
next
  case (Cons kv ps)
  have "sum_list (map (\<lambda>k. sum_list (map f (filter (\<lambda>kv. fst kv = k) (kv # ps)))) keys) =
        sum_list (map (\<lambda>k. (if fst kv = k then f kv else 0) + sum_list (map f (filter (\<lambda>kv. fst kv = k) ps))) keys)"
    by (intro arg_cong [where f = sum_list] map_cong) auto
  also have "\<dots> = sum_list (map (\<lambda>k. if fst kv = k then f kv else 0) keys) +
        sum_list (map (\<lambda>k. sum_list (map f (filter (\<lambda>kv. fst kv = k) ps))) keys)"
    by (simp add: sum_list_addf)
  also have "\<dots> = f kv + sum_list (map f ps)"
    using Cons assms(1) by (simp add: sum_list_delta)
  finally show ?case by simp
qed

lemma group_keys_set: "set (group_keys ks) = set ks"
  by (simp add: group_keys_def)

lemma group_keys_distinct: "distinct (group_keys ks)"
  by (simp add: group_keys_def)

lemma group_cells_whole:
  assumes "length ks = length vs" "whole_cells vs"
  shows "whole_cells (map snd (filter (\<lambda>kv. fst kv = k) (zip ks vs)))"
proof -
  let ?g = "filter (\<lambda>kv. fst kv = k) (zip ks vs)"
  have a: "list_all (\<lambda>v. float_of v \<in> \<int>) (map snd ?g)"
    using assms(2) by (auto simp: whole_cells_iff list_all_iff dest: set_zip_rightD)
  have "sum_list (map (\<lambda>v. \<bar>float_of v\<bar>) (map snd ?g)) =
        sum_list (map (\<lambda>kv. \<bar>float_of (snd kv)\<bar>) ?g)"
    by (simp add: comp_def)
  also have "\<dots> \<le> sum_list (map (\<lambda>kv. \<bar>float_of (snd kv)\<bar>) (zip ks vs))"
    by (rule sum_list_abs_filter_le)
  also have "\<dots> = sum_list (map (\<lambda>v. \<bar>float_of v\<bar>) (map snd (zip ks vs)))"
    by (simp add: comp_def)
  also have "\<dots> = sum_list (map (\<lambda>v. \<bar>float_of v\<bar>) vs)"
    using assms(1) by simp
  finally show ?thesis
    using a assms(2) by (simp add: whole_cells_iff)
qed

lemma group_sums_whole:
  assumes "length ks = length vs" "whole_cells vs"
  shows "series_sum (map (group_sum ks vs) (group_keys ks)) = sum_list (map float_of vs)"
proof -
  let ?f = "\<lambda>kv::cell \<times> cell. float_of (snd kv)"
  let ?a = "\<lambda>kv::cell \<times> cell. \<bar>float_of (snd kv)\<bar>"
  let ?g = "\<lambda>k. filter (\<lambda>kv. fst kv = k) (zip ks vs)"
  let ?s = "\<lambda>k. sum_list (map ?f (?g k))"
  have gs: "group_sum ks vs k = Num (?s k)" for k
    using series_sum_whole [OF group_cells_whole [OF assms, of k]]
    by (simp add: group_sum_def comp_def)
  have keys: "distinct (group_keys ks)" "fst ` set (zip ks vs) \<subseteq> set (group_keys ks)"
    by (auto simp: group_keys_distinct group_keys_set dest: set_zip_leftD)
  have fl: "map float_of (map (group_sum ks vs) (group_keys ks)) = map ?s (group_keys ks)"
    by (simp add: gs comp_def)
  have tot: "sum_list (map ?s (group_keys ks)) = sum_list (map float_of vs)"
  proof -
    have "sum_list (map ?s (group_keys ks)) = sum_list (map ?f (zip ks vs))"
      using keys by (rule sum_list_groups)
    also have "\<dots> = sum_list (map float_of (map snd (zip ks vs)))"
      by (simp add: comp_def)
    finally show ?thesis using assms(1) by simp
  qed
  have i: "?s k \<in> \<int>" for k
  proof (rule Ints_sum_list)
    fix x assume "x \<in> set (map ?f (?g k))"
    then have "x \<in> set (map float_of (map snd (?g k)))" by (simp add: comp_def)
    with group_cells_whole [OF assms, of k] show "x \<in> \<int>" by (rule whole_cells_Ints)
  qed
  have "sum_list (map (\<lambda>k. \<bar>?s k\<bar>) (group_keys ks)) \<le>
        sum_list (map (\<lambda>k. sum_list (map ?a (?g k))) (group_keys ks))"
  proof (rule sum_list_mono)
    fix k
    have "\<bar>?s k\<bar> \<le> sum_list (map abs (map ?f (?g k)))" by (rule abs_sum_list_le)
    then show "\<bar>?s k\<bar> \<le> sum_list (map ?a (?g k))" by (simp add: comp_def)
  qed
  also have "\<dots> = sum_list (map ?a (zip ks vs))"
    using keys by (rule sum_list_groups)
  also have "\<dots> = sum_list (map (\<lambda>v. \<bar>float_of v\<bar>) (map snd (zip ks vs)))"
    by (simp add: comp_def)
  also have "\<dots> = sum_list (map (\<lambda>v. \<bar>float_of v\<bar>) vs)"
    using assms(1) by simp
  finally have "sum_list (map (\<lambda>k. \<bar>?s k\<bar>) (group_keys ks)) < 2 ^ 53"
    using assms(2) by (simp add: whole_cells_iff)
  then have "whole_cells (map (group_sum ks vs) (group_keys ks))"
    by (simp add: whole_cells_iff list_all_iff gs comp_def i)
  from series_sum_whole [OF this] show ?thesis
    by (simp only: fl tot)
qed

lemma column_total_empty: "wf_frame df \<Longrightarrow> df_empty df \<Longrightarrow> column_total df c = 0"
proof (cases "map_of df c")
  case None
  then show ?thesis by (simp add: column_total_def)
next
  case (Some vs)
  assume "wf_frame df" "df_empty df"
  with Some have "length vs = 0"
    by (simp add: wf_frame_column_length nrows_empty)
  with Some show ?thesis by (simp add: column_total_def series_sum_def)
qed

lemma exact_total_empty: "wf_frame df \<Longrightarrow> df_empty df \<Longrightarrow> exact_total df c = 0"
proof (cases "map_of df c")
  case None
  then show ?thesis by (simp add: exact_total_def)
next
  case (Some vs)
  assume "wf_frame df" "df_empty df"
  with Some have "length vs = 0"
    by (simp add: wf_frame_column_length nrows_empty)
  with Some show ?thesis by (simp add: exact_total_def)
qed

lemma column_total_whole: "whole_amounts df c \<Longrightarrow> column_total df c = exact_total df c"
  by (cases "map_of df c")
     (simp_all add: column_total_def exact_total_def whole_amounts_def series_sum_whole)

lemma column_total_Some: "map_of df c = Some vs \<Longrightarrow> column_total df c = series_sum vs"
  by (simp add: column_total_def)

lemma totals_values:
  assumes "wf_frame main" "totals main = Inr (cust, a, b, c)"
  shows "a = column_total main ''Amount Paid'' \<and> b = column_total main ''Outstanding'' \<and>
         c = column_total main ''Total Amount''"
  using totals_Inr [OF assms(2)]
proof (elim disjE conjE exE)
  assume "df_empty main" "a = 0" "b = 0" "c = 0"
  then show ?thesis
    using assms(1) by (simp add: column_total_empty)
next
  fix paid out tot
  assume "map_of main ''Amount Paid'' = Some paid" "map_of main ''Outstanding'' = Some out"
    "map_of main ''Total Amount'' = Some tot"
    "a = series_sum paid" "b = series_sum out" "c = series_sum tot"
  then show ?thesis
    by (simp add: column_total_Some)
qed

lemma customer_totals_whole:
  assumes "wf_frame main" "totals main = Inr (cust, a, b, c)"
  shows "(whole_amounts main ''Deposit Amount'' \<longrightarrow>
            column_total cust ''Total Deposit'' = exact_total main ''Deposit Amount'') \<and>
         (whole_amounts main ''Amount Paid'' \<longrightarrow>
            column_total cust ''Total Paid'' = exact_total main ''Amount Paid'') \<and>
         (whole_amounts main ''Outstanding'' \<longrightarrow>
            column_total cust ''Outstanding'' = exact_total main ''Outstanding'')"
  using totals_Inr [OF assms(2)]
proof (elim disjE conjE exE)
  assume e: "df_empty main" "cust = empty_table customer_columns"
  have "column_total cust ''Total Deposit'' = 0" "column_total cust ''Total Paid'' = 0"
    "column_total cust ''Outstanding'' = 0"
    by (simp_all add: e(2) column_total_def empty_table_def customer_columns_def series_sum_def)
  then show ?thesis
    using assms(1) e(1) by (simp add: exact_total_empty)
next
  fix ks dep paid out tot
  assume l: "map_of main ''Customer'' = Some ks" "map_of main ''Deposit Amount'' = Some dep"
    "map_of main ''Amount Paid'' = Some paid" "map_of main ''Outstanding'' = Some out"
  and cu: "cust = [(''Customer'', group_keys ks),
                   (''Total Deposit'', map (group_sum ks dep) (group_keys ks)),
                   (''Total Paid'', map (group_sum ks paid) (group_keys ks)),
                   (''Outstanding'', map (group_sum ks out) (group_keys ks)),
                   (''Status'', map status_lambda (map (group_sum ks out) (group_keys ks)))]"
  have len: "length ks = length dep" "length ks = length paid" "length ks = length out"
    using l assms(1) by (simp_all add: wf_frame_column_length)
  have "column_total cust ''Total Deposit'' = series_sum (map (group_sum ks dep) (group_keys ks))"
    "column_total cust ''Total Paid'' = series_sum (map (group_sum ks paid) (group_keys ks))"
    "column_total cust ''Outstanding'' = series_sum (map (group_sum ks out) (group_keys ks))"
    by (simp_all add: cu column_total_def)
  then show ?thesis
    using l len by (simp add: whole_amounts_def exact_total_def group_sums_whole)
qed

lemma recompute_sanitized: "recompute_from_main p (sanitize_types p df) e oe = recompute_from_main p df e oe"
  by (simp add: recompute_from_main_def sanitize_idem)

lemma select_columns_error: "select_columns df cs = Inl err \<Longrightarrow> \<exists>c. err = KeyError c"
  by (induction cs) (auto split: option.splits sum.splits)

lemma getitem_error: "getitem df c = Inl err \<Longrightarrow> \<exists>c. err = KeyError c"
  by (auto simp: getitem_def split: option.splits)

lemma groupby_sum_error: "groupby_sum df by aggs = Inl err \<Longrightarrow> \<exists>c. err = KeyError c"
  by (auto simp: groupby_sum_def split: option.splits sum.splits dest: select_columns_error)

lemma customer_summary_error: "customer_summary main = Inl err \<Longrightarrow> \<exists>c. err = KeyError c"
  unfolding customer_summary_def Let_def
  by (auto split: sum.splits dest: select_columns_error getitem_error groupby_sum_error)

lemma totals_error: "totals main = Inl err \<Longrightarrow> \<exists>c. err = KeyError c"
  unfolding totals_def
  by (auto split: if_splits sum.splits dest: customer_summary_error getitem_error)

lemma recompute_tables:
  assumes "wf_frame df" "recompute_from_main p df e oe = Inr T"
  shows "\<exists>cust a b c.
     totals (sanitize_types p df) = Inr (cust, a, b, c) \<and>
     a = column_total (sanitize_types p df) ''Amount Paid'' \<and>
     b = column_total (sanitize_types p df) ''Outstanding'' \<and>
     c = column_total (sanitize_types p df) ''Total Amount'' \<and>
     map_of T MAIN_SHEET = Some (sanitize_types p df) \<and>
     map_of T CUSTOMER_SHEET = Some cust \<and>
     map_of T PURCHASE_SHEET = Some [(''Metric'', purchase_metrics),
       (''Value'', [Num c, Num a, Num b, Num (if c \<noteq> 0 then a / c * 100 else 0),
                    Num (if c \<noteq> 0 then b / c * 100 else 0)])] \<and>
     map_of T DAILY_SHEET = Some [(''Metric'', daily_metrics),
             (''Value'', [Num e, Num oe, Num c, Num a, Num (c - a - e - oe)])]"
proof -
  from recompute_Inr [OF assms(2)] obtain cust a b c where
    t: "totals (sanitize_types p df) = Inr (cust, a, b, c)" and
    T: "T = [(MAIN_SHEET, sanitize_types p df), (CUSTOMER_SHEET, cust),
          (PURCHASE_SHEET, [(''Metric'', purchase_metrics),
       (''Value'', [Num c, Num a, Num b, Num (if c \<noteq> 0 then a / c * 100 else 0),
                    Num (if c \<noteq> 0 then b / c * 100 else 0)])]),
          (DAILY_SHEET, [(''Metric'', daily_metrics),
             (''Value'', [Num e, Num oe, Num c, Num a, Num (c - a - e - oe)])])]"
    by blast
  have w: "wf_frame (sanitize_types p df)"
    using assms(1) by (rule sanitize_wf)
  note r = totals_values [OF w t]
  have names: "MAIN_SHEET \<noteq> CUSTOMER_SHEET" "MAIN_SHEET \<noteq> PURCHASE_SHEET" "MAIN_SHEET \<noteq> DAILY_SHEET"
    "CUSTOMER_SHEET \<noteq> PURCHASE_SHEET" "CUSTOMER_SHEET \<noteq> DAILY_SHEET" "PURCHASE_SHEET \<noteq> DAILY_SHEET"
    by (simp_all add: MAIN_SHEET_def CUSTOMER_SHEET_def PURCHASE_SHEET_def DAILY_SHEET_def)
  have "map_of T MAIN_SHEET = Some (sanitize_types p df)"
    "map_of T CUSTOMER_SHEET = Some cust"
    "map_of T PURCHASE_SHEET = Some [(''Metric'', purchase_metrics),
       (''Value'', [Num c, Num a, Num b, Num (if c \<noteq> 0 then a / c * 100 else 0),
                    Num (if c \<noteq> 0 then b / c * 100 else 0)])]"
    "map_of T DAILY_SHEET = Some [(''Metric'', daily_metrics),
             (''Value'', [Num e, Num oe, Num c, Num a, Num (c - a - e - oe)])]"
    unfolding T using names by simp_all
  with t r show ?thesis by blast
qed

lemma grouped_wf: "wf_frame grouped_ledger"
  by (simp add: wf_frame_def grouped_ledger_def nrows_def)

lemma grouped_keys:
  "group_keys [Str ''Alice'', Str ''Bob'', Str ''Alice''] = [Str ''Alice'', Str ''Bob'']"
  by (simp add: group_keys_def less_eq_prod_def list_le_def list_less_def)

lemma grouped_sanitize: "sanitize_types no_parse grouped_ledger = grouped_ledger"
  by (simp add: grouped_ledger_def sanitize_types_def df_empty_def nrows_def Let_def
      apply_to_column_def numeric_pass_def numeric_columns_def derive_status_def
      numeric_cell_def no_parse_def)

lemma grouped_recompute:
  "recompute_from_main no_parse grouped_ledger 10 20 = Inr grouped_bundle"
proof -
  have c: "customer_summary grouped_ledger =
      Inr [(''Customer'', [Str ''Alice'', Str ''Bob'']),
            (''Total Deposit'', [Num 1500, Num 200]),
            (''Total Paid'', [Num 500, Num 200]),
            (''Outstanding'', [Num 1000, Num 0]),
            (''Status'', [Str ''Not Paid'', Str ''Paid''])]"
    by (simp add: grouped_ledger_def customer_summary_def groupby_sum_def getitem_def
        rename_columns_def grouped_keys group_sum_def series_sum_whole whole_cells_iff
        customer_columns_def)
  have "totals (sanitize_types no_parse grouped_ledger) =
      Inr ([(''Customer'', [Str ''Alice'', Str ''Bob'']),
            (''Total Deposit'', [Num 1500, Num 200]),
            (''Total Paid'', [Num 500, Num 200]),
            (''Outstanding'', [Num 1000, Num 0]),
            (''Status'', [Str ''Not Paid'', Str ''Paid''])], 700, 1000, 1700)"
    unfolding grouped_sanitize totals_def c
    by (simp add: grouped_ledger_def df_empty_def nrows_def getitem_def series_sum_whole
        whole_cells_iff)
  from recompute_totals [OF this, of 10 20] show ?thesis
    by (simp add: grouped_sanitize grouped_bundle_def)
qed

lemma rounding_wf: "wf_frame rounding_ledger"
  by (simp add: wf_frame_def rounding_ledger_def nrows_def)

lemma rounding_keys: "group_keys [Str ''A'', Str ''B'', Str ''A''] = [Str ''A'', Str ''B'']"
  by (simp add: group_keys_def less_eq_prod_def list_le_def list_less_def)

lemma rounding_sanitize: "sanitize_types no_parse rounding_ledger = rounding_ledger"
  by (simp add: rounding_ledger_def sanitize_types_def df_empty_def nrows_def Let_def
      apply_to_column_def numeric_pass_def numeric_columns_def derive_status_def
      numeric_cell_def no_parse_def tenth_def fifth_def three_tenths_def)

lemma rounding_recompute: "recompute_from_main no_parse rounding_ledger 0 0 = Inr rounding_bundle"
proof -
  have z: "series_sum [Num 0, Num 0] = 0" "series_sum [Num 0] = 0"
    "series_sum [Num 0, Num 0, Num 0] = 0"
    by (simp_all add: series_sum_whole whole_cells_iff)
  have o: "0 \<le> fifth_below" "\<not> fifth \<le> 0"
    by (simp_all add: fifth_below_def fifth_def)
  have c: "customer_summary rounding_ledger = Inr rounding_summary"
    by (simp add: rounding_ledger_def rounding_summary_def customer_summary_def groupby_sum_def
        getitem_def rename_columns_def rounding_keys group_sum_def z rounding_group_sum
        rounding_single_sum customer_columns_def o)
  have "totals (sanitize_types no_parse rounding_ledger) =
      Inr (rounding_summary, 0, 1 / 2 ^ 54, 0)"
    unfolding rounding_sanitize totals_def c
    by (simp add: rounding_ledger_def df_empty_def nrows_def getitem_def z rounding_ledger_sum)
  from recompute_totals [OF this, of 0 0] show ?thesis
    by (simp add: rounding_sanitize rounding_bundle_def)
qed

lemma example_wf: "wf_frame example_ledger"
  by (simp add: wf_frame_def example_ledger_def nrows_def)

lemma empty_ledger_wf: "wf_frame (empty_table ledger_columns)"
  by (simp add: wf_frame_def empty_table_def ledger_columns_def nrows_def)

lemma empty_ledger_empty: "df_empty (empty_table ledger_columns)"
  by (simp add: df_empty_def empty_table_def ledger_columns_def nrows_def)

lemma empty_ledger_recompute:
  "\<exists>T. recompute_from_main p (empty_table ledger_columns) e oe = Inr T"
  using empty_ledger_empty
  by (simp add: recompute_from_main_def sanitize_empty totals_def share_eq)

section \<open>Import\<close>

lemma sheet_names_distinct:
  "MAIN_SHEET \<noteq> CUSTOMER_SHEET" "MAIN_SHEET \<noteq> PURCHASE_SHEET" "MAIN_SHEET \<noteq> DAILY_SHEET"
  "CUSTOMER_SHEET \<noteq> PURCHASE_SHEET" "CUSTOMER_SHEET \<noteq> DAILY_SHEET"
  "PURCHASE_SHEET \<noteq> DAILY_SHEET"
  "CUSTOMER_SHEET \<noteq> MAIN_SHEET" "PURCHASE_SHEET \<noteq> MAIN_SHEET" "DAILY_SHEET \<noteq> MAIN_SHEET"
  "PURCHASE_SHEET \<noteq> CUSTOMER_SHEET" "DAILY_SHEET \<noteq> CUSTOMER_SHEET"
  "DAILY_SHEET \<noteq> PURCHASE_SHEET"
  by (simp_all add: MAIN_SHEET_def CUSTOMER_SHEET_def PURCHASE_SHEET_def DAILY_SHEET_def)


lemma load_step_lookup:
  "map_of (case map_of book name of None \<Rightarrow> fr | Some df \<Rightarrow> AList.update name df fr) n =
     (if n = name then (case map_of book name of None \<Rightarrow> map_of fr n | Some df \<Rightarrow> Some df)
      else map_of fr n)"
  by (auto simp: update_conv' split: option.splits)


lemma empty_frames_lookup:
  "name \<in> set sheet_names \<Longrightarrow> map_of empty_frames name = Some (canonical_empty name)"
  by (auto simp: sheet_names_def empty_frames_def canonical_empty_def sheet_names_distinct)

lemma load_workbook_lookup:
  assumes "name \<in> set sheet_names"
  shows "map_of (load_workbook file) name =
           Some (case read_excel file of
                   Inl e \<Rightarrow> canonical_empty name
                 | Inr book \<Rightarrow>
                     (case map_of book name of None \<Rightarrow> canonical_empty name | Some df \<Rightarrow> df))"
proof (cases "read_excel file")
  case (Inl e)
  then show ?thesis using assms by (simp add: load_workbook_def empty_frames_lookup)
next
  case (Inr book)
  have "map_of (load_workbook file) name =
          (case map_of book name of None \<Rightarrow> map_of empty_frames name | Some df \<Rightarrow> Some df)"
    unfolding load_workbook_def Inr sum.case sheet_names_def foldl.simps
    using assms
    by (auto simp: load_step_lookup sheet_names_def sheet_names_distinct split: option.splits)
  then show ?thesis
    using assms by (simp add: Inr empty_frames_lookup split: option.splits)
qed

section \<open>Export\<close>

lemma select_columns_Inr:
  "select_columns df cs = Inr out \<Longrightarrow>
     map fst out = cs \<and> (\<forall>c \<in> set cs. map_of out c = map_of df c \<and> map_of df c \<noteq> None)"
proof (induction cs arbitrary: out)
  case Nil
  then show ?case by simp
next
  case (Cons c cs)
  then obtain vs out' where l: "map_of df c = Some vs" and s: "select_columns df cs = Inr out'"
    and o: "out = (c, vs) # out'"
    by (auto split: option.splits sum.splits)
  from Cons.IH [OF s] l o show ?case by auto
qed



lemma write_sheets_bundle:
  "write_sheets [(MAIN_SHEET, main), (CUSTOMER_SHEET, cust), (PURCHASE_SHEET, pur), (DAILY_SHEET, daily)] =
     (case (if \<not> df_empty main then select_columns main ledger_columns else Inr main) of
        Inl e \<Rightarrow> Inl e
      | Inr w \<Rightarrow> Inr [(MAIN_SHEET, w), (CUSTOMER_SHEET, cust), (PURCHASE_SHEET, pur), (DAILY_SHEET, daily)])"
  by (simp add: sheet_names_distinct split: sum.splits)


lemma recompute_shape:
  assumes "recompute_from_main p df e oe = Inr T"
  shows "\<exists>cust pur daily. T = [(MAIN_SHEET, sanitize_types p df), (CUSTOMER_SHEET, cust), (PURCHASE_SHEET, pur), (DAILY_SHEET, daily)]"
  using recompute_Inr [OF assms] by blast


lemma header_only_recompute:
  "recompute_from_main no_parse header_only_ledger 0 0 =
     Inr [(MAIN_SHEET, header_only_ledger),
          (CUSTOMER_SHEET, empty_table customer_columns),
          (PURCHASE_SHEET, [(''Metric'', purchase_metrics),
                            (''Value'', [Num 0, Num 0, Num 0, Num 0, Num 0])]),
          (DAILY_SHEET, [(''Metric'', daily_metrics),
                         (''Value'', [Num 0, Num 0, Num 0, Num 0, Num 0])])]"
proof -
  have e: "df_empty header_only_ledger"
    by (simp add: df_empty_def header_only_ledger_def nrows_def)
  then have "totals (sanitize_types no_parse header_only_ledger) =
      Inr (empty_table customer_columns, 0, 0, 0)"
    by (simp add: sanitize_empty totals_def)
  from recompute_totals [OF this, of 0 0] e show ?thesis
    by (simp add: sanitize_empty)
qed

lemma example_export:
  "\<exists>wb. export_bytes no_parse example_ledger 10 20 = Inr wb"
  unfolding export_bytes_def example_recompute sum.case to_excel_bytes_def write_sheets_bundle
  by (simp add: df_empty_def nrows_def ledger_columns_def)

lemma example_not_empty: "\<not> df_empty (sanitize_types no_parse example_ledger)"
  unfolding example_sanitize by (simp add: df_empty_def nrows_def)





section \<open>Whitespace and appended rows\<close>

lemma strip_empty_iff: "strip s = [] \<longleftrightarrow> list_all is_space s"
proof -
  have "strip s = [] \<longleftrightarrow> (\<forall>x \<in> set (dropWhile is_space s). is_space x)"
    by (simp add: strip_def dropWhile_eq_Nil_conv)
  also have "\<dots> \<longleftrightarrow> dropWhile is_space s = []"
  proof
    assume a: "\<forall>x \<in> set (dropWhile is_space s). is_space x"
    show "dropWhile is_space s = []"
    proof (rule ccontr)
      assume n: "dropWhile is_space s \<noteq> []"
      then have "\<not> is_space (hd (dropWhile is_space s))" by (rule hd_dropWhile)
      moreover from n have "hd (dropWhile is_space s) \<in> set (dropWhile is_space s)" by simp
      ultimately show False using a by blast
    qed
  next
    assume e: "dropWhile is_space s = []"
    show "\<forall>x \<in> set (dropWhile is_space s). is_space x"
      unfolding e by simp
  qed
  also have "\<dots> \<longleftrightarrow> list_all is_space s"
    by (simp add: dropWhile_eq_Nil_conv list_all_iff)
  finally show ?thesis .
qed

lemma blank_customer_iff: "(s = [] \<or> strip s = []) \<longleftrightarrow> list_all is_space s"
  by (auto simp: strip_empty_iff)

lemma map_of_map_pair:
  "map_of (map (\<lambda>cv. (fst cv, g cv)) xs) c =
     (case map_of xs c of None \<Rightarrow> None | Some v \<Rightarrow> Some (g (c, v)))"
  by (induction xs) auto

lemma map_of_map_filter_absent:
  "map_of (map (\<lambda>cv. (fst cv, h cv)) (filter (\<lambda>cv. map_of df (fst cv) = None) xs)) c =
     (if map_of df c = None
      then (case map_of xs c of None \<Rightarrow> None | Some v \<Rightarrow> Some (h (c, v)))
      else None)"
  by (induction xs) auto

lemma append_row_lookup:
  "map_of (append_row df row) c =
     (case map_of df c of
        Some vs \<Rightarrow> Some (vs @ [case map_of row c of None \<Rightarrow> NaN | Some v \<Rightarrow> v])
      | None \<Rightarrow> map_option (\<lambda>v. replicate (nrows df) NaN @ [v]) (map_of row c))"
  unfolding append_row_def map_of_append map_add_def map_of_map_filter_absent
  unfolding map_of_map_pair
  by (auto split: option.splits)

lemma append_row_nrows:
  assumes "row \<noteq> []"
  shows "nrows (append_row df row) = nrows df + 1"
proof (cases df)
  case Nil
  with assms show ?thesis
    by (cases row) (auto simp: append_row_def nrows_def)
next
  case (Cons a list)
  then show ?thesis
    by (cases a) (simp add: append_row_def nrows_def)
qed

lemma append_row_wf:
  assumes "wf_frame df" "row \<noteq> []"
  shows "wf_frame (append_row df row)"
  unfolding wf_frame_def append_row_nrows [OF assms(2)]
  using assms(1) by (auto simp: append_row_def wf_frame_def)

lemma append_row_not_empty:
  assumes "row \<noteq> []"
  shows "\<not> df_empty (append_row df row)"
proof -
  have "append_row df row \<noteq> []"
    using assms by (cases df; cases row) (auto simp: append_row_def)
  then show ?thesis
    by (simp add: df_empty_def append_row_nrows [OF assms])
qed

section \<open>The appended entry\<close>

lemma new_row_not_Nil: "new_row d c dep r a \<noteq> []"
  by (simp add: new_row_def Let_def)

lemma new_row_lookup:
  "map_of (new_row d c dep r a) ''Date'' = Some (Day d)"
  "map_of (new_row d c dep r a) ''Customer'' = Some (Str (strip c))"
  "map_of (new_row d c dep r a) ''Deposit Amount'' = Some (Num dep)"
  "map_of (new_row d c dep r a) ''Rate'' = Some (Num r)"
  "map_of (new_row d c dep r a) ''Total Amount'' = Some (Num (dep * r))"
  "map_of (new_row d c dep r a) ''Amount Paid'' = Some (Num a)"
  "map_of (new_row d c dep r a) ''Outstanding'' = Some (Num (dep * r - a))"
  "map_of (new_row d c dep r a) ''Status'' =
     Some (Str (if dep * r - a \<le> 0 then ''Paid'' else ''Not Paid''))"
  by (simp_all add: new_row_def Let_def)

lemma appended_column:
  assumes "wf_frame df" "map_of row c = Some v"
  shows "\<exists>pre. map_of (append_row df row) c = Some (pre @ [v]) \<and> length pre = nrows df"
proof (cases "map_of df c")
  case None
  then show ?thesis using assms(2) by (simp add: append_row_lookup)
next
  case (Some vs)
  then show ?thesis
    using assms by (simp add: append_row_lookup wf_frame_column_length)
qed

lemma sanitize_last_cell:
  assumes "\<not> df_empty U" "map_of U c = Some (pre @ [v])" "c \<noteq> ''Status''"
  shows "cell_at (sanitize_types p U) c (length pre) =
           Some (if c = ''Date'' then to_date p (pre @ [v]) v
                 else if c \<in> set numeric_columns then numeric_cell p v else v)"
proof -
  have "map_of (sanitize_types p U) c =
          Some (if c = ''Date'' then map (to_date p (pre @ [v])) pre @ [to_date p (pre @ [v]) v]
                else if c \<in> set numeric_columns then map (numeric_cell p) pre @ [numeric_cell p v]
                else pre @ [v])"
    using assms(2,3) by (cases "c = ''Date''") (simp_all add: sanitize_lookup [OF assms(1)])
  then show ?thesis
    by (auto simp: cell_at_def nth_append)
qed

lemma sanitize_last_status:
  assumes "\<not> df_empty U" "map_of U ''Outstanding'' = Some (pre @ [v])"
  shows "cell_at (sanitize_types p U) ''Status'' (length pre) =
           Some (status_lambda (numeric_cell p v))"
proof -
  have "map_of (sanitize_types p U) ''Status'' =
          Some (map status_lambda (map (numeric_cell p) pre) @ [status_lambda (numeric_cell p v)])"
    using assms(2) by (simp add: sanitize_lookup [OF assms(1)])
  then show ?thesis
    by (simp add: cell_at_def nth_append)
qed

lemma totals_present:
  assumes "\<not> df_empty main"
    "map_of main ''Customer'' \<noteq> None" "map_of main ''Deposit Amount'' \<noteq> None"
    "map_of main ''Amount Paid'' \<noteq> None" "map_of main ''Outstanding'' \<noteq> None"
    "map_of main ''Total Amount'' \<noteq> None"
  shows "\<exists>cust a b c. totals main = Inr (cust, a, b, c)"
proof -
  from assms obtain ks dep paid out tot where
    l: "map_of main ''Customer'' = Some ks" "map_of main ''Deposit Amount'' = Some dep"
      "map_of main ''Amount Paid'' = Some paid" "map_of main ''Outstanding'' = Some out"
      "map_of main ''Total Amount'' = Some tot"
    by auto
  show ?thesis
    unfolding totals_def customer_summary_present [OF l]
    using assms(1) l by (simp add: getitem_def)
qed

lemma recompute_present:
  assumes "wf_frame df" "\<not> df_empty df"
    "map_of df ''Customer'' \<noteq> None" "map_of df ''Deposit Amount'' \<noteq> None"
    "map_of df ''Amount Paid'' \<noteq> None" "map_of df ''Outstanding'' \<noteq> None"
    "map_of df ''Total Amount'' \<noteq> None"
  shows "\<exists>T. recompute_from_main p df e oe = Inr T"
proof -
  have ne: "\<not> df_empty (sanitize_types p df)"
    using assms(1,2) by (simp add: sanitize_empty_iff)
  have "\<exists>cust a b c. totals (sanitize_types p df) = Inr (cust, a, b, c)"
    using assms(3-7)
    by (intro totals_present ne) (auto simp: sanitize_lookup [OF assms(2)] numeric_columns_def)
  then show ?thesis
    using recompute_totals by blast
qed

lemma add_transaction_blank:
  assumes "map_of frames MAIN_SHEET = Some L" "list_all is_space customer"
  shows "add_transaction p frames d customer dep r a e oe =
           Inr (frames, Error_message ''Please enter a customer name.'')"
  using assms blank_customer_iff [of customer]
  by (simp add: add_transaction_def get_frame_def Let_def)

lemma add_transaction_accepted:
  assumes "map_of frames MAIN_SHEET = Some L" "\<not> list_all is_space customer"
  shows "add_transaction p frames d customer dep r a e oe =
           (case recompute_from_main p (append_row (sanitize_types p L) (new_row d customer dep r a))
                   e oe of
              Inl err \<Rightarrow> Inl err
            | Inr T \<Rightarrow> Inr (T, Success_message ''Entry added and summaries updated.''))"
  using assms blank_customer_iff [of customer]
  by (simp add: add_transaction_def get_frame_def Let_def)

lemma accepted_entry:
  fixes p :: coercions and d :: date and customer :: string and dep r a :: real
  assumes "wf_frame L"
  defines "U \<equiv> append_row (sanitize_types p L) (new_row d customer dep r a)"
  shows "\<exists>T. recompute_from_main p U e oe = Inr T \<and> map fst T = sheet_names \<and>
           map_of T MAIN_SHEET = Some (sanitize_types p U)"
    and "nrows (sanitize_types p U) = nrows L + 1"
    and "cell_at (sanitize_types p U) ''Date'' (nrows L) = Some (Day d)"
    and "cell_at (sanitize_types p U) ''Customer'' (nrows L) = Some (Str (strip customer))"
    and "cell_at (sanitize_types p U) ''Deposit Amount'' (nrows L) = Some (Num dep)"
    and "cell_at (sanitize_types p U) ''Rate'' (nrows L) = Some (Num r)"
    and "cell_at (sanitize_types p U) ''Total Amount'' (nrows L) = Some (Num (dep * r))"
    and "cell_at (sanitize_types p U) ''Amount Paid'' (nrows L) = Some (Num a)"
    and "cell_at (sanitize_types p U) ''Outstanding'' (nrows L) = Some (Num (dep * r - a))"
    and "cell_at (sanitize_types p U) ''Status'' (nrows L) =
           Some (Str (if dep * r - a \<le> 0 then ''Paid'' else ''Not Paid''))"
proof -
  define L' where "L' = sanitize_types p L"
  define row where "row = new_row d customer dep r a"
  have U: "U = append_row L' row" by (simp add: U_def L'_def row_def)
  have w': "wf_frame L'" and n': "nrows L' = nrows L"
    using assms(1) by (simp_all add: L'_def sanitize_wf sanitize_nrows)
  have rn: "row \<noteq> []" by (simp add: row_def new_row_not_Nil)
  have wU: "wf_frame U" and nU: "nrows U = nrows L + 1" and neU: "\<not> df_empty U"
    using w' rn n' by (simp_all add: U append_row_wf append_row_nrows append_row_not_empty)
  note look = new_row_lookup [of d customer dep r a, folded row_def]
  have col: "\<exists>pre. map_of U c = Some (pre @ [v]) \<and> length pre = nrows L" if "map_of row c = Some v" for c v
    using appended_column [OF w' that] by (simp add: U n')
  have "\<exists>T. recompute_from_main p U e oe = Inr T"
    using col [OF look(2)] col [OF look(3)] col [OF look(6)] col [OF look(7)] col [OF look(5)]
    by (intro recompute_present wU neU) auto
  then obtain T where T: "recompute_from_main p U e oe = Inr T" ..
  from recompute_shape [OF T] have "map fst T = sheet_names" "map_of T MAIN_SHEET = Some (sanitize_types p U)"
    by (auto simp: sheet_names_def)
  with T show "\<exists>T. recompute_from_main p U e oe = Inr T \<and> map fst T = sheet_names \<and>
           map_of T MAIN_SHEET = Some (sanitize_types p U)"
    by blast
  show "nrows (sanitize_types p U) = nrows L + 1"
    using wU nU by (simp add: sanitize_nrows)
  show "cell_at (sanitize_types p U) ''Date'' (nrows L) = Some (Day d)"
    using col [OF look(1)] sanitize_last_cell [OF neU, of "''Date''" _ "Day d" p] by auto
  show "cell_at (sanitize_types p U) ''Customer'' (nrows L) = Some (Str (strip customer))"
    using col [OF look(2)] sanitize_last_cell [OF neU, of "''Customer''" _ "Str (strip customer)" p]
    by (auto simp: numeric_columns_def)
  show "cell_at (sanitize_types p U) ''Deposit Amount'' (nrows L) = Some (Num dep)"
    using col [OF look(3)] sanitize_last_cell [OF neU, of "''Deposit Amount''" _ "Num dep" p]
    by (auto simp: numeric_columns_def numeric_cell_def)
  show "cell_at (sanitize_types p U) ''Rate'' (nrows L) = Some (Num r)"
    using col [OF look(4)] sanitize_last_cell [OF neU, of "''Rate''" _ "Num r" p]
    by (auto simp: numeric_columns_def numeric_cell_def)
  show "cell_at (sanitize_types p U) ''Total Amount'' (nrows L) = Some (Num (dep * r))"
    using col [OF look(5)] sanitize_last_cell [OF neU, of "''Total Amount''" _ "Num (dep * r)" p]
    by (auto simp: numeric_columns_def numeric_cell_def)
  show "cell_at (sanitize_types p U) ''Amount Paid'' (nrows L) = Some (Num a)"
    using col [OF look(6)] sanitize_last_cell [OF neU, of "''Amount Paid''" _ "Num a" p]
    by (auto simp: numeric_columns_def numeric_cell_def)
  show "cell_at (sanitize_types p U) ''Outstanding'' (nrows L) = Some (Num (dep * r - a))"
    using col [OF look(7)] sanitize_last_cell [OF neU, of "''Outstanding''" _ "Num (dep * r - a)" p]
    by (auto simp: numeric_columns_def numeric_cell_def)
  show "cell_at (sanitize_types p U) ''Status'' (nrows L) =
           Some (Str (if dep * r - a \<le> 0 then ''Paid'' else ''Not Paid''))"
    using col [OF look(7)] sanitize_last_status [OF neU, of _ "Num (dep * r - a)" p]
    by (auto simp: numeric_cell_def)
qed

lemma sanitized_date_fixed:
  assumes "\<not> df_empty L" "map_of (sanitize_types p L) ''Date'' = Some vs"
  shows "map (to_date p col) vs = vs"
  using assms(2) by (auto simp: sanitize_lookup [OF assms(1)] to_date_idem)

lemma sanitized_numeric_fixed:
  assumes "\<not> df_empty L" "map_of (sanitize_types p L) c = Some vs" "c \<in> set numeric_columns"
  shows "map (numeric_cell p) vs = vs"
  using assms(2,3) by (auto simp: sanitize_lookup [OF assms(1)] numeric_columns_def numeric_cell_idem)

lemma sanitized_status_fixed:
  assumes "\<not> df_empty L" "map_of (sanitize_types p L) ''Status'' = Some vs"
    "map_of (sanitize_types p L) ''Outstanding'' = Some os"
  shows "map status_lambda (map (numeric_cell p) os) = vs"
  using assms(2,3)
  by (auto simp: sanitize_lookup [OF assms(1)] numeric_columns_def numeric_cell_idem comp_def)

lemma sanitize_keeps_absent:
  assumes "map_of L ''Outstanding'' = None"
  shows "map_of (sanitize_types p L) ''Outstanding'' = None"
    and "map_of (sanitize_types p L) ''Status'' = map_of L ''Status''"
proof -
  show "map_of (sanitize_types p L) ''Outstanding'' = None"
    using assms by (cases "df_empty L") (simp_all add: sanitize_empty sanitize_lookup numeric_columns_def)
  show "map_of (sanitize_types p L) ''Status'' = map_of L ''Status''"
    using assms by (cases "df_empty L") (simp_all add: sanitize_empty sanitize_lookup numeric_columns_def)
qed

lemma sanitize_keeps_column:
  assumes "map_of df c \<noteq> None"
  shows "map_of (sanitize_types p df) c \<noteq> None"
proof (cases "df_empty df")
  case True
  then show ?thesis using assms by (simp add: sanitize_empty)
next
  case False
  show ?thesis
    using assms by (cases "map_of df ''Outstanding''") (auto simp: sanitize_lookup [OF False])
qed

lemma existing_rows_kept:
  fixes p :: coercions and d :: date and customer :: string and dep r a :: real
  assumes "wf_frame L"
    "df_empty L \<or> map_of L ''Outstanding'' \<noteq> None \<or> map_of L ''Status'' = None"
    "map_of (sanitize_types p L) c = Some vs"
  defines "U \<equiv> append_row (sanitize_types p L) (new_row d customer dep r a)"
  shows "\<exists>x. map_of (sanitize_types p U) c = Some (vs @ [x])"
proof -
  define L' where "L' = sanitize_types p L"
  define row where "row = new_row d customer dep r a"
  have U: "U = append_row L' row" by (simp add: U_def L'_def row_def)
  have w': "wf_frame L'" and n': "nrows L' = nrows L"
    using assms(1) by (simp_all add: L'_def sanitize_wf sanitize_nrows)
  have rn: "row \<noteq> []" by (simp add: row_def new_row_not_Nil)
  have wU: "wf_frame U" and nU: "nrows U = nrows L + 1" and neU: "\<not> df_empty U"
    using w' rn n' by (simp_all add: U append_row_wf append_row_nrows append_row_not_empty)
  have c: "map_of L' c = Some vs" using assms(3) by (simp add: L'_def)
  define x0 where "x0 = (case map_of row c of None \<Rightarrow> NaN | Some v \<Rightarrow> v)"
  have Uc: "map_of U c = Some (vs @ [x0])"
    using c by (simp add: U append_row_lookup x0_def)
  show ?thesis
  proof (cases "df_empty L")
    case True
    have "length vs = 0"
      using wf_frame_column_length [OF w' c] n' True by (simp add: nrows_empty)
    moreover obtain ws where ws: "map_of (sanitize_types p U) c = Some ws"
      using Uc sanitize_keeps_column [of U c p] by auto
    moreover have "length ws = 1"
      using wf_frame_column_length [OF sanitize_wf [OF wU] ws] nU wU True
      by (simp add: sanitize_nrows nrows_empty)
    then obtain x where "ws = [x]"
      by (cases ws) auto
    ultimately show ?thesis by simp
  next
    case False
    note fixed = sanitized_date_fixed [OF False] sanitized_numeric_fixed [OF False]
    show ?thesis
    proof (cases "c = ''Status''")
      case True
      have "map_of row ''Outstanding'' = Some (Num (dep * r - a))"
        by (simp add: row_def new_row_lookup)
      from appended_column [OF w' this] obtain pre where
        pre: "map_of U ''Outstanding'' = Some (pre @ [Num (dep * r - a)])"
        by (auto simp: U)
      from assms(2) False have "map_of L ''Outstanding'' \<noteq> None \<or> map_of L ''Status'' = None"
        by simp
      then obtain os where os: "map_of L' ''Outstanding'' = Some os"
        using c True sanitize_keeps_absent [of L p] by (cases "map_of L ''Outstanding''")
          (auto simp: L'_def sanitize_lookup [OF False] numeric_columns_def)
      then have "pre = os"
        using pre by (simp add: U append_row_lookup)
      moreover have "map status_lambda (map (numeric_cell p) os) = vs"
        using c os True sanitized_status_fixed [OF False, of p vs os] by (simp add: L'_def)
      ultimately show ?thesis
        using pre True by (simp add: sanitize_lookup [OF neU])
    next
      case nS: False
      show ?thesis
      proof (cases "c = ''Date''")
        case True
        then have "map (to_date p (vs @ [x0])) vs = vs"
          using c fixed(1) [of p vs] by (simp add: L'_def)
        then show ?thesis
          using Uc True by (simp add: sanitize_lookup [OF neU])
      next
        case nD: False
        show ?thesis
        proof (cases "c \<in> set numeric_columns")
          case True
          then have "map (numeric_cell p) vs = vs"
            using c fixed(2) [of p c vs] by (simp add: L'_def)
          then show ?thesis
            using Uc True nS nD by (simp add: sanitize_lookup [OF neU])
        next
          case False
          then show ?thesis
            using Uc nS nD by (simp add: sanitize_lookup [OF neU])
        qed
      qed
    qed
  qed
qed

lemma recomputable_ledger:
  assumes "wf_frame L" "recompute_from_main p L e oe = Inr T0"
  shows "df_empty L \<or> map_of L ''Outstanding'' \<noteq> None"
proof -
  from recompute_Inr [OF assms(2)] obtain cust a b c where
    t: "totals (sanitize_types p L) = Inr (cust, a, b, c)" by blast
  from totals_Inr [OF t] show ?thesis
    using sanitize_keeps_absent(1) [of L p] assms(1)
    by (auto simp: sanitize_empty_iff)
qed

lemma example_upload_ledger: "map_of (load_workbook example_upload) MAIN_SHEET = Some example_ledger"
proof -
  have "MAIN_SHEET \<in> set sheet_names" by (simp add: sheet_names_def)
  from load_workbook_lookup [OF this, of example_upload] show ?thesis
    by (simp add: example_upload_def read_excel_def MAIN_SHEET_def)
qed

lemma example_nrows: "nrows example_ledger = 2"
  by (simp add: example_ledger_def nrows_def)

section \<open>When recomputation and export return\<close>

text \<open>
  A recomputation returns exactly when the ledger is empty or has the Customer column and
  the four columns that are summed; otherwise it raises a KeyError. The export of a ledger
  that is not empty raises a KeyError when one of the eight ledger columns is absent.
\<close>

lemma sanitize_adds_no_column:
  assumes "c \<noteq> ''Status''" "map_of df c = None"
  shows "map_of (sanitize_types p df) c = None"
  using assms by (cases "df_empty df") (auto simp: sanitize_empty sanitize_lookup)

lemma recompute_returns_iff:
  assumes "wf_frame df"
  shows "(\<exists>T. recompute_from_main p df e oe = Inr T) \<longleftrightarrow>
         (df_empty df \<or>
          (\<forall>c \<in> set [''Customer'', ''Deposit Amount'', ''Amount Paid'', ''Outstanding'',
                       ''Total Amount'']. map_of df c \<noteq> None))"
proof
  assume "\<exists>T. recompute_from_main p df e oe = Inr T"
  then obtain T where T: "recompute_from_main p df e oe = Inr T" ..
  from recompute_Inr [OF T] obtain cust a b c where
    t: "totals (sanitize_types p df) = Inr (cust, a, b, c)" by blast
  show "df_empty df \<or>
          (\<forall>c \<in> set [''Customer'', ''Deposit Amount'', ''Amount Paid'', ''Outstanding'',
                       ''Total Amount'']. map_of df c \<noteq> None)"
  proof (cases "df_empty df")
    case True
    then show ?thesis ..
  next
    case False
    then have "\<not> df_empty (sanitize_types p df)"
      using assms by (simp add: sanitize_empty_iff)
    with totals_Inr [OF t] have l:
      "map_of (sanitize_types p df) ''Customer'' \<noteq> None"
      "map_of (sanitize_types p df) ''Deposit Amount'' \<noteq> None"
      "map_of (sanitize_types p df) ''Amount Paid'' \<noteq> None"
      "map_of (sanitize_types p df) ''Outstanding'' \<noteq> None"
      "map_of (sanitize_types p df) ''Total Amount'' \<noteq> None"
      by auto
    have "map_of df c \<noteq> None" if "map_of (sanitize_types p df) c \<noteq> None" "c \<noteq> ''Status''" for c
      using that sanitize_adds_no_column [of c df p] by (cases "map_of df c") simp_all
    from this [OF l(1)] this [OF l(2)] this [OF l(3)] this [OF l(4)] this [OF l(5)]
    show ?thesis by simp
  qed
next
  assume a: "df_empty df \<or>
          (\<forall>c \<in> set [''Customer'', ''Deposit Amount'', ''Amount Paid'', ''Outstanding'',
                       ''Total Amount'']. map_of df c \<noteq> None)"
  show "\<exists>T. recompute_from_main p df e oe = Inr T"
  proof (cases "df_empty df")
    case True
    then have "totals (sanitize_types p df) = Inr (empty_table customer_columns, 0, 0, 0)"
      by (simp add: sanitize_empty totals_def)
    from recompute_totals [OF this] show ?thesis by blast
  next
    case False
    with a show ?thesis
      by (intro recompute_present assms) auto
  qed
qed

lemma export_without_rate:
  "export_bytes no_parse
     [(''Date'', [Day (Date 2024 1 1)]), (''Customer'', [Str ''Alice'']),
      (''Deposit Amount'', [Num 1000]), (''Total Amount'', [Num 2000]),
      (''Amount Paid'', [Num 500]), (''Outstanding'', [Num 1500]),
      (''Status'', [Str ''Not Paid''])] 0 0 = Inl (KeyError ''Rate'')"
proof -
  define L where "L = [(''Date'', [Day (Date 2024 1 1)]), (''Customer'', [Str ''Alice'']),
      (''Deposit Amount'', [Num 1000]), (''Total Amount'', [Num 2000]),
      (''Amount Paid'', [Num 500]), (''Outstanding'', [Num 1500]),
      (''Status'', [Str ''Not Paid''])]"
  have w: "wf_frame L" and ne: "\<not> df_empty L"
    by (simp_all add: L_def wf_frame_def df_empty_def nrows_def)
  have "\<exists>T. recompute_from_main no_parse L 0 0 = Inr T"
    by (intro recompute_present w ne) (simp_all add: L_def)
  then obtain T where T: "recompute_from_main no_parse L 0 0 = Inr T" ..
  from recompute_shape [OF T] obtain cust pur daily where
    s: "T = [(MAIN_SHEET, sanitize_types no_parse L), (CUSTOMER_SHEET, cust),
             (PURCHASE_SHEET, pur), (DAILY_SHEET, daily)]"
    by blast
  have l: "sanitize_types no_parse L = L"
    by (simp add: L_def sanitize_types_def df_empty_def nrows_def Let_def
        apply_to_column_def numeric_pass_def numeric_columns_def derive_status_def
        numeric_cell_def no_parse_def)
  have "select_columns L ledger_columns = Inl (KeyError ''Rate'')"
    by (simp add: L_def ledger_columns_def)
  then have "to_excel_bytes T = Inl (KeyError ''Rate'')"
    unfolding to_excel_bytes_def s l write_sheets_bundle using ne by simp
  then show ?thesis
    unfolding L_def [symmetric] by (simp add: export_bytes_def T)
qed

section \<open>The claims\<close>

subsection \<open>C1\<close>

text \<open>
  Claim C1 as stated fails: pandas adds the floats of a group and the floats of a column
  separately, each addition rounded, and the sums taken in the two orders differ. At the
  ledger whose outstanding amounts are \<open>0.1\<close>, \<open>0.2\<close> and \<open>-0.3\<close>, the first and the third
  of one customer, the Outstanding column of the customer summary sums to \<open>2 ^ - 55\<close>
  (2.78e-17) and the Outstanding column of the ledger to \<open>2 ^ - 54\<close> (5.55e-17).
\<close>

theorem summaries_rounding_counterexample:
  "wf_frame rounding_ledger \<and>
   recompute_from_main no_parse rounding_ledger 0 0 = Inr rounding_bundle \<and>
   map_of rounding_bundle MAIN_SHEET = Some rounding_ledger \<and>
   map_of rounding_bundle CUSTOMER_SHEET = Some rounding_summary \<and>
   column_total rounding_summary ''Outstanding'' = 1 / 2 ^ 55 \<and>
   column_total rounding_ledger ''Outstanding'' = 1 / 2 ^ 54 \<and>
   column_total rounding_summary ''Outstanding'' \<noteq> column_total rounding_ledger ''Outstanding''"
proof -
  have s: "column_total rounding_summary ''Outstanding'' = 1 / 2 ^ 55"
    by (simp add: column_total_def rounding_summary_def rounding_summary_sum)
  have l: "column_total rounding_ledger ''Outstanding'' = 1 / 2 ^ 54"
    by (simp add: column_total_def rounding_ledger_def rounding_ledger_sum)
  have "column_total rounding_summary ''Outstanding'' \<noteq> column_total rounding_ledger ''Outstanding''"
    unfolding s l by simp
  with s l rounding_wf rounding_recompute show ?thesis
    by (simp add: rounding_bundle_def MAIN_SHEET_def CUSTOMER_SHEET_def)
qed

text \<open>
  Claim C1, amended. Whenever recomputation of a ledger whose columns have one length
  returns, its result holds the four tables, and for each of the three pairs of columns
  (Total Deposit and Deposit Amount, Total Paid and Amount Paid, Outstanding and
  Outstanding): if the ledger's column holds whole numbers whose absolute values add up to
  less than \<open>2 ^ 53\<close>, then the column of the customer summary and the column of the
  normalized ledger both sum to the exact sum of the ledger's column. With no condition,
  the Total Amount value of the purchase summary is the Sum of Total Amount value of the
  daily summary (both are the sum of the ledger's Total Amount column, which is the exact
  sum when that column holds such whole numbers).
\<close>

theorem summaries_reconcile:
  assumes "wf_frame df" "recompute_from_main p df e oe = Inr T"
  shows "\<exists>main cust purchase daily.
     map_of T MAIN_SHEET = Some main \<and> map_of T CUSTOMER_SHEET = Some cust \<and>
     map_of T PURCHASE_SHEET = Some purchase \<and> map_of T DAILY_SHEET = Some daily \<and>
     (whole_amounts main ''Deposit Amount'' \<longrightarrow>
        column_total cust ''Total Deposit'' = exact_total main ''Deposit Amount'' \<and>
        column_total main ''Deposit Amount'' = exact_total main ''Deposit Amount'') \<and>
     (whole_amounts main ''Amount Paid'' \<longrightarrow>
        column_total cust ''Total Paid'' = exact_total main ''Amount Paid'' \<and>
        column_total main ''Amount Paid'' = exact_total main ''Amount Paid'') \<and>
     (whole_amounts main ''Outstanding'' \<longrightarrow>
        column_total cust ''Outstanding'' = exact_total main ''Outstanding'' \<and>
        column_total main ''Outstanding'' = exact_total main ''Outstanding'') \<and>
     metric_value purchase (''Total Amount ('' @ sigma @ '' deposit*rate)'') =
       Some (Num (column_total main ''Total Amount'')) \<and>
     metric_value daily ''Sum of Total Amount'' = Some (Num (column_total main ''Total Amount'')) \<and>
     (whole_amounts main ''Total Amount'' \<longrightarrow>
        column_total main ''Total Amount'' = exact_total main ''Total Amount'')"
proof -
  from recompute_tables [OF assms] obtain cust a b c where
    t: "totals (sanitize_types p df) = Inr (cust, a, b, c)" and
    c: "c = column_total (sanitize_types p df) ''Total Amount''" and
    T: "map_of T MAIN_SHEET = Some (sanitize_types p df)"
     "map_of T CUSTOMER_SHEET = Some cust"
     "map_of T PURCHASE_SHEET = Some [(''Metric'', purchase_metrics),
       (''Value'', [Num c, Num a, Num b, Num (if c \<noteq> 0 then a / c * 100 else 0),
                    Num (if c \<noteq> 0 then b / c * 100 else 0)])]"
     "map_of T DAILY_SHEET = Some [(''Metric'', daily_metrics),
             (''Value'', [Num e, Num oe, Num c, Num a, Num (c - a - e - oe)])]"
    by blast
  have w: "wf_frame (sanitize_types p df)"
    using assms(1) by (rule sanitize_wf)
  note r = customer_totals_whole [OF w t]
  have x: "whole_amounts (sanitize_types p df) col \<longrightarrow>
           column_total (sanitize_types p df) col = exact_total (sanitize_types p df) col" for col
    by (simp add: column_total_whole)
  have p: "metric_value [(''Metric'', purchase_metrics),
       (''Value'', [Num c, Num a, Num b, Num (if c \<noteq> 0 then a / c * 100 else 0),
                    Num (if c \<noteq> 0 then b / c * 100 else 0)])]
            (''Total Amount ('' @ sigma @ '' deposit*rate)'') = Some (Num c)"
    by (simp add: metric_value_def purchase_metrics_def)
  have d: "metric_value [(''Metric'', daily_metrics),
             (''Value'', [Num e, Num oe, Num c, Num a, Num (c - a - e - oe)])]
            ''Sum of Total Amount'' = Some (Num c)"
    by (simp add: metric_value_def daily_metrics_def)
  from T r x p d show ?thesis
    unfolding c by blast
qed

text \<open>
  Claim C1, amended, at a ledger of three entries, two of them Alice's, with expenses 10
  and 20: Alice's deposits 1000 and 500 make 1500 in the customer summary, and with Bob's
  200 both tables sum to 1700; the amounts paid sum to 700 and the outstanding amounts to
  1000 in both tables.
\<close>

theorem summaries_reconcile_witness:
  "wf_frame grouped_ledger \<and>
   (\<exists>T. recompute_from_main no_parse grouped_ledger 10 20 = Inr T \<and>
     (\<exists>main cust purchase daily.
       map_of T MAIN_SHEET = Some main \<and> map_of T CUSTOMER_SHEET = Some cust \<and>
       map_of T PURCHASE_SHEET = Some purchase \<and> map_of T DAILY_SHEET = Some daily \<and>
       map_of cust ''Total Deposit'' = Some [Num 1500, Num 200] \<and>
       whole_amounts main ''Deposit Amount'' \<and> whole_amounts main ''Amount Paid'' \<and>
       whole_amounts main ''Outstanding'' \<and> whole_amounts main ''Total Amount'' \<and>
       column_total cust ''Total Deposit'' = 1700 \<and> column_total main ''Deposit Amount'' = 1700 \<and>
       exact_total main ''Deposit Amount'' = 1700 \<and>
       column_total cust ''Total Paid'' = 700 \<and> column_total main ''Amount Paid'' = 700 \<and>
       exact_total main ''Amount Paid'' = 700 \<and>
       column_total cust ''Outstanding'' = 1000 \<and> column_total main ''Outstanding'' = 1000 \<and>
       exact_total main ''Outstanding'' = 1000 \<and>
       metric_value purchase (''Total Amount ('' @ sigma @ '' deposit*rate)'') = Some (Num 1700) \<and>
       metric_value daily ''Sum of Total Amount'' = Some (Num 1700)))"
proof -
  note r = grouped_recompute
  from summaries_reconcile [OF grouped_wf r] obtain main cust purchase daily where
    t: "map_of grouped_bundle MAIN_SHEET = Some main"
      "map_of grouped_bundle CUSTOMER_SHEET = Some cust"
      "map_of grouped_bundle PURCHASE_SHEET = Some purchase"
      "map_of grouped_bundle DAILY_SHEET = Some daily" and
    d: "whole_amounts main ''Deposit Amount'' \<longrightarrow>
        column_total cust ''Total Deposit'' = exact_total main ''Deposit Amount'' \<and>
        column_total main ''Deposit Amount'' = exact_total main ''Deposit Amount''" and
    a: "whole_amounts main ''Amount Paid'' \<longrightarrow>
        column_total cust ''Total Paid'' = exact_total main ''Amount Paid'' \<and>
        column_total main ''Amount Paid'' = exact_total main ''Amount Paid''" and
    ou: "whole_amounts main ''Outstanding'' \<longrightarrow>
        column_total cust ''Outstanding'' = exact_total main ''Outstanding'' \<and>
        column_total main ''Outstanding'' = exact_total main ''Outstanding''" and
    m: "metric_value purchase (''Total Amount ('' @ sigma @ '' deposit*rate)'') =
          Some (Num (column_total main ''Total Amount''))"
       "metric_value daily ''Sum of Total Amount'' = Some (Num (column_total main ''Total Amount''))" and
    ta: "whole_amounts main ''Total Amount'' \<longrightarrow>
        column_total main ''Total Amount'' = exact_total main ''Total Amount''"
    by blast
  have main: "main = grouped_ledger"
    using t(1) by (simp add: grouped_bundle_def)
  have cust: "map_of cust ''Total Deposit'' = Some [Num 1500, Num 200]"
    using t(2) by (auto simp: grouped_bundle_def MAIN_SHEET_def CUSTOMER_SHEET_def)
  have wh: "whole_amounts main ''Deposit Amount''" "whole_amounts main ''Amount Paid''"
    "whole_amounts main ''Outstanding''" "whole_amounts main ''Total Amount''"
    by (simp_all add: main grouped_ledger_def whole_amounts_def whole_cells_iff)
  have ex: "exact_total main ''Deposit Amount'' = 1700" "exact_total main ''Amount Paid'' = 700"
    "exact_total main ''Outstanding'' = 1000" "exact_total main ''Total Amount'' = 1700"
    by (simp_all add: main grouped_ledger_def exact_total_def)
  from d a ou ta wh ex have v:
    "column_total cust ''Total Deposit'' = 1700" "column_total main ''Deposit Amount'' = 1700"
    "column_total cust ''Total Paid'' = 700" "column_total main ''Amount Paid'' = 700"
    "column_total cust ''Outstanding'' = 1000" "column_total main ''Outstanding'' = 1000"
    "column_total main ''Total Amount'' = 1700"
    by simp_all
  from m have m': "metric_value purchase (''Total Amount ('' @ sigma @ '' deposit*rate)'') = Some (Num 1700)"
    "metric_value daily ''Sum of Total Amount'' = Some (Num 1700)"
    by (simp_all add: v)
  from grouped_wf r t cust wh ex v m' show ?thesis
    by blast
qed

subsection \<open>C2\<close>

text \<open>
  Claim C2, amended. On a table whose columns have one length, the normalizer keeps the
  number of rows and, when there is an Outstanding column, leaves in every row a numeric
  outstanding and the status \<open>Paid\<close> if that number is at most 0 and \<open>Not Paid\<close> (with a
  space) otherwise, whatever status the input held. In every result of a recomputation the
  same holds for every row of the ledger and for every row of the customer summary.
\<close>

theorem status_follows_outstanding:
  assumes "wf_frame df"
  shows "nrows (sanitize_types p df) = nrows df \<and>
         (map_of df ''Outstanding'' \<noteq> None \<longrightarrow>
            list_all (status_row (sanitize_types p df)) [0..<nrows df]) \<and>
         (recompute_from_main p df e oe = Inr T \<longrightarrow>
            (\<exists>main cust. map_of T MAIN_SHEET = Some main \<and> map_of T CUSTOMER_SHEET = Some cust \<and>
               list_all (status_row main) [0..<nrows main] \<and>
               list_all (status_row cust) [0..<nrows cust]))"
proof (intro conjI impI)
  show "nrows (sanitize_types p df) = nrows df"
    using assms by (rule sanitize_nrows)
next
  assume "map_of df ''Outstanding'' \<noteq> None"
  then obtain vs where "map_of df ''Outstanding'' = Some vs" by blast
  with assms show "list_all (status_row (sanitize_types p df)) [0..<nrows df]"
    by (rule sanitize_status_rows)
next
  assume r: "recompute_from_main p df e oe = Inr T"
  define main where "main = sanitize_types p df"
  from recompute_Inr [OF r] obtain cust a b c where
    t: "totals main = Inr (cust, a, b, c)" and
    T: "map_of T MAIN_SHEET = Some main" "map_of T CUSTOMER_SHEET = Some cust"
    by (auto simp: main_def MAIN_SHEET_def CUSTOMER_SHEET_def)
  have m: "list_all (status_row main) [0..<nrows main]"
  proof (cases "df_empty main")
    case True
    then show ?thesis by (simp add: nrows_empty)
  next
    case False
    then have ne: "\<not> df_empty df"
      using assms by (simp add: main_def sanitize_empty_iff)
    from totals_Inr [OF t] False obtain out where "map_of main ''Outstanding'' = Some out"
      by auto
    then obtain vs where "map_of df ''Outstanding'' = Some vs"
      by (auto simp: main_def sanitize_lookup_outstanding [OF ne])
    with assms show ?thesis
      unfolding main_def sanitize_nrows [OF assms] by (rule sanitize_status_rows)
  qed
  have c: "list_all (status_row cust) [0..<nrows cust]"
    using totals_Inr [OF t]
  proof (elim disjE conjE exE)
    assume "cust = empty_table customer_columns"
    then show ?thesis by (simp add: empty_table_def customer_columns_def nrows_def)
  next
    fix ks dep paid out tot
    assume cu: "cust = [(''Customer'', group_keys ks),
                   (''Total Deposit'', map (group_sum ks dep) (group_keys ks)),
                   (''Total Paid'', map (group_sum ks paid) (group_keys ks)),
                   (''Outstanding'', map (group_sum ks out) (group_keys ks)),
                   (''Status'', map status_lambda (map (group_sum ks out) (group_keys ks)))]"
    show ?thesis
    proof (rule status_rows)
      show "map_of cust ''Outstanding'' = Some (map (group_sum ks out) (group_keys ks))"
        by (simp add: cu)
      show "map_of cust ''Status'' = Some (map status_lambda (map (group_sum ks out) (group_keys ks)))"
        by (simp add: cu)
      show "\<exists>x. v = Num x" if "v \<in> set (map (group_sum ks out) (group_keys ks))" for v
        using that by (rule group_sum_Num)
      show "length (map (group_sum ks out) (group_keys ks)) = nrows cust"
        by (simp add: cu nrows_Cons)
    qed
  qed
  from T m c show "\<exists>main cust. map_of T MAIN_SHEET = Some main \<and> map_of T CUSTOMER_SHEET = Some cust \<and>
               list_all (status_row main) [0..<nrows main] \<and>
               list_all (status_row cust) [0..<nrows cust]"
    by blast
qed

text \<open>
  Claim C2 as stated fails on the text of the second status: a row with outstanding 5 is
  given \<open>Not Paid\<close>, which is not the text \<open>NotPaid\<close>.
\<close>

theorem status_text_counterexample:
  "cell_at (sanitize_types no_parse [(''Outstanding'', [Num 5]), (''Status'', [Str ''Paid''])])
      ''Outstanding'' 0 = Some (Num 5) \<and>
   cell_at (sanitize_types no_parse [(''Outstanding'', [Num 5]), (''Status'', [Str ''Paid''])])
      ''Status'' 0 = Some (Str ''Not Paid'') \<and>
   Str ''Not Paid'' \<noteq> Str ''NotPaid''"
  by (simp add: sanitize_types_def df_empty_def nrows_def Let_def apply_to_column_def
      numeric_pass_def numeric_columns_def derive_status_def numeric_cell_def cell_at_def)

text \<open>
  The amended claim C2 at the ledger of two entries.
\<close>

theorem status_follows_outstanding_witness:
  "wf_frame example_ledger \<and>
   nrows (sanitize_types no_parse example_ledger) = nrows example_ledger \<and>
   map_of example_ledger ''Outstanding'' \<noteq> None \<and>
   list_all (status_row (sanitize_types no_parse example_ledger)) [0..<nrows example_ledger] \<and>
   (\<exists>T. recompute_from_main no_parse example_ledger 10 20 = Inr T \<and>
     (\<exists>main cust. map_of T MAIN_SHEET = Some main \<and> map_of T CUSTOMER_SHEET = Some cust \<and>
        list_all (status_row main) [0..<nrows main] \<and>
        list_all (status_row cust) [0..<nrows cust]))"
proof -
  have w: "wf_frame example_ledger"
    by (simp add: wf_frame_def example_ledger_def nrows_def)
  have o: "map_of example_ledger ''Outstanding'' \<noteq> None"
    by (simp add: example_ledger_def)
  obtain T where r: "recompute_from_main no_parse example_ledger 10 20 = Inr T"
    using example_recompute by blast
  from status_follows_outstanding [OF w, of no_parse 10 20 T] w o r show ?thesis
    by blast
qed

subsection \<open>C3\<close>

text \<open>
  Claim C3. Recomputation is idempotent: recomputing the ledger table of a result, with
  the same two expenses, gives that result again, all four tables.
\<close>

theorem recompute_idempotent:
  assumes "recompute_from_main p L e oe = Inr T"
  shows "\<exists>L'. map_of T MAIN_SHEET = Some L' \<and> recompute_from_main p L' e oe = Inr T"
proof -
  from recompute_Inr [OF assms] have "map_of T MAIN_SHEET = Some (sanitize_types p L)"
    by auto
  moreover have "recompute_from_main p (sanitize_types p L) e oe = Inr T"
    using assms by (simp add: recompute_sanitized)
  ultimately show ?thesis by blast
qed

text \<open>
  Claim C3 at the ledger of two entries.
\<close>

theorem recompute_idempotent_witness:
  "\<exists>T. recompute_from_main no_parse example_ledger 10 20 = Inr T \<and>
     (\<exists>L'. map_of T MAIN_SHEET = Some L' \<and> recompute_from_main no_parse L' 10 20 = Inr T)"
proof -
  obtain T where r: "recompute_from_main no_parse example_ledger 10 20 = Inr T"
    using example_recompute by blast
  from recompute_idempotent [OF r] r show ?thesis
    by blast
qed

subsection \<open>C4\<close>

text \<open>
  Claim C4. A recomputation never ends in a division by zero. In the purchase summary of
  a result the two shares are the paid total and the outstanding total divided by the
  total amount and multiplied by 100 when the total amount is not 0, and both are 0 when
  it is 0, as it is for an empty ledger.
\<close>

theorem purchase_shares_guarded:
  "recompute_from_main p df e oe \<noteq> Inl ZeroDivisionError \<and>
   (wf_frame df \<longrightarrow> recompute_from_main p df e oe = Inr T \<longrightarrow>
      (\<exists>main total_amount_sum paid_total outstanding_total.
         map_of T MAIN_SHEET = Some main \<and>
         total_amount_sum = column_total main ''Total Amount'' \<and>
         paid_total = column_total main ''Amount Paid'' \<and>
         outstanding_total = column_total main ''Outstanding'' \<and>
         map_of T PURCHASE_SHEET =
           Some [(''Metric'', purchase_metrics),
                 (''Value'',
                    [Num total_amount_sum, Num paid_total, Num outstanding_total,
                     Num (if total_amount_sum \<noteq> 0 then paid_total / total_amount_sum * 100 else 0),
                     Num (if total_amount_sum \<noteq> 0 then outstanding_total / total_amount_sum * 100
                          else 0)])] \<and>
         (df_empty df \<longrightarrow> total_amount_sum = 0)))"
proof (intro conjI impI)
  show "recompute_from_main p df e oe \<noteq> Inl ZeroDivisionError"
    by (auto simp: recompute_Inl dest: totals_error)
next
  assume w: "wf_frame df" and r: "recompute_from_main p df e oe = Inr T"
  from recompute_tables [OF w r] obtain cust a b c where
    v: "a = column_total (sanitize_types p df) ''Amount Paid''"
     "b = column_total (sanitize_types p df) ''Outstanding''"
     "c = column_total (sanitize_types p df) ''Total Amount''" and
    T: "map_of T MAIN_SHEET = Some (sanitize_types p df)"
     "map_of T PURCHASE_SHEET = Some [(''Metric'', purchase_metrics),
       (''Value'', [Num c, Num a, Num b, Num (if c \<noteq> 0 then a / c * 100 else 0),
                    Num (if c \<noteq> 0 then b / c * 100 else 0)])]"
    by blast
  have "df_empty df \<longrightarrow> c = 0"
    using w by (auto simp: v sanitize_empty column_total_empty)
  with v T show "\<exists>main total_amount_sum paid_total outstanding_total.
         map_of T MAIN_SHEET = Some main \<and>
         total_amount_sum = column_total main ''Total Amount'' \<and>
         paid_total = column_total main ''Amount Paid'' \<and>
         outstanding_total = column_total main ''Outstanding'' \<and>
         map_of T PURCHASE_SHEET =
           Some [(''Metric'', purchase_metrics),
                 (''Value'',
                    [Num total_amount_sum, Num paid_total, Num outstanding_total,
                     Num (if total_amount_sum \<noteq> 0 then paid_total / total_amount_sum * 100 else 0),
                     Num (if total_amount_sum \<noteq> 0 then outstanding_total / total_amount_sum * 100
                          else 0)])] \<and>
         (df_empty df \<longrightarrow> total_amount_sum = 0)"
    by blast
qed

text \<open>
  Claim C4 at the ledger of two entries and at the empty ledger.
\<close>

theorem purchase_shares_guarded_witness:
  "wf_frame example_ledger \<and>
   (\<exists>T. recompute_from_main no_parse example_ledger 10 20 = Inr T \<and>
      map_of T PURCHASE_SHEET =
        Some [(''Metric'', purchase_metrics),
              (''Value'', [Num 2200, Num 800, Num 1400, Num (800 / 2200 * 100),
                           Num (1400 / 2200 * 100)])]) \<and>
   wf_frame (empty_table ledger_columns) \<and> df_empty (empty_table ledger_columns) \<and>
   (\<exists>T. recompute_from_main no_parse (empty_table ledger_columns) 10 20 = Inr T \<and>
      map_of T PURCHASE_SHEET =
        Some [(''Metric'', purchase_metrics), (''Value'', [Num 0, Num 0, Num 0, Num 0, Num 0])])"
proof -
  obtain T where r: "recompute_from_main no_parse example_ledger 10 20 = Inr T"
    using example_recompute by blast
  have m: "map_of T MAIN_SHEET = Some (sanitize_types no_parse example_ledger)"
    using recompute_Inr [OF r] by auto
  have c: "column_total (sanitize_types no_parse example_ledger) ''Total Amount'' = 2200"
    "column_total (sanitize_types no_parse example_ledger) ''Amount Paid'' = 800"
    "column_total (sanitize_types no_parse example_ledger) ''Outstanding'' = 1400"
    by (simp_all add: example_sanitize column_total_def series_sum_whole whole_cells_iff)
  from purchase_shares_guarded [of no_parse example_ledger 10 20 T] example_wf r m c
  have 1: "map_of T PURCHASE_SHEET =
        Some [(''Metric'', purchase_metrics),
              (''Value'', [Num 2200, Num 800, Num 1400, Num (800 / 2200 * 100),
                           Num (1400 / 2200 * 100)])]"
    by auto
  obtain T' where r': "recompute_from_main no_parse (empty_table ledger_columns) 10 20 = Inr T'"
    using empty_ledger_recompute by blast
  have m': "map_of T' MAIN_SHEET = Some (empty_table ledger_columns)"
    using recompute_Inr [OF r'] empty_ledger_empty by (auto simp: sanitize_empty)
  have c': "column_total (empty_table ledger_columns) ''Amount Paid'' = 0"
    "column_total (empty_table ledger_columns) ''Outstanding'' = 0"
    using empty_ledger_wf empty_ledger_empty by (simp_all add: column_total_empty)
  from purchase_shares_guarded [of no_parse "empty_table ledger_columns" 10 20 T']
    empty_ledger_wf empty_ledger_empty r' m' c'
  have 2: "map_of T' PURCHASE_SHEET =
        Some [(''Metric'', purchase_metrics), (''Value'', [Num 0, Num 0, Num 0, Num 0, Num 0])]"
    by auto
  from 1 2 r r' example_wf empty_ledger_wf empty_ledger_empty show ?thesis
    by blast
qed

subsection \<open>C5\<close>

text \<open>
  Claim C5. The daily summary of a result has exactly the five metrics Expense, Other
  Expense, Sum of Total Amount, Total Paid and Profit, in this order, and the profit is
  the total amount less the paid total less the two expenses.
\<close>

theorem daily_summary_metrics:
  assumes "wf_frame df" "recompute_from_main p df e oe = Inr T"
  shows "\<exists>main total_amount_sum paid_total.
     map_of T MAIN_SHEET = Some main \<and>
     total_amount_sum = column_total main ''Total Amount'' \<and>
     paid_total = column_total main ''Amount Paid'' \<and>
     map_of T DAILY_SHEET =
       Some [(''Metric'', [Str ''Expense'', Str ''Other Expense'', Str ''Sum of Total Amount'',
                           Str ''Total Paid'', Str ''Profit'']),
             (''Value'', [Num e, Num oe, Num total_amount_sum, Num paid_total,
                          Num (total_amount_sum - paid_total - e - oe)])]"
proof -
  from recompute_tables [OF assms] obtain cust a b c where
    v: "a = column_total (sanitize_types p df) ''Amount Paid''"
     "c = column_total (sanitize_types p df) ''Total Amount''" and
    T: "map_of T MAIN_SHEET = Some (sanitize_types p df)"
     "map_of T DAILY_SHEET = Some [(''Metric'', daily_metrics),
             (''Value'', [Num e, Num oe, Num c, Num a, Num (c - a - e - oe)])]"
    by blast
  then show ?thesis
    unfolding daily_metrics_def by blast
qed

text \<open>
  Claim C5 at the ledger of two entries, with expenses 10 and 20.
\<close>

theorem daily_summary_metrics_witness:
  "wf_frame example_ledger \<and>
   (\<exists>T. recompute_from_main no_parse example_ledger 10 20 = Inr T \<and>
      map_of T DAILY_SHEET =
        Some [(''Metric'', [Str ''Expense'', Str ''Other Expense'', Str ''Sum of Total Amount'',
                            Str ''Total Paid'', Str ''Profit'']),
              (''Value'', [Num 10, Num 20, Num 2200, Num 800, Num (2200 - 800 - 10 - 20)])])"
proof -
  obtain T where r: "recompute_from_main no_parse example_ledger 10 20 = Inr T"
    using example_recompute by blast
  have m: "map_of T MAIN_SHEET = Some (sanitize_types no_parse example_ledger)"
    using recompute_Inr [OF r] by auto
  have c: "column_total (sanitize_types no_parse example_ledger) ''Total Amount'' = 2200"
    "column_total (sanitize_types no_parse example_ledger) ''Amount Paid'' = 800"
    by (simp_all add: example_sanitize column_total_def series_sum_whole whole_cells_iff)
  from daily_summary_metrics [OF example_wf r] m c
  have "map_of T DAILY_SHEET =
        Some [(''Metric'', [Str ''Expense'', Str ''Other Expense'', Str ''Sum of Total Amount'',
                            Str ''Total Paid'', Str ''Profit'']),
              (''Value'', [Num 10, Num 20, Num 2200, Num 800, Num (2200 - 800 - 10 - 20)])]"
    by auto
  with example_wf r show ?thesis by blast
qed

subsection \<open>C6\<close>



subsection \<open>C7\<close>

text \<open>
  Claim C7. On frames that hold a ledger whose columns have one length, a submission
  whose customer is empty or all whitespace is answered with the error message and leaves
  the frames as they are. Any other submission replaces the frames by the recomputation of
  the normalized ledger with the new entry appended: the four named tables, the ledger one
  row longer; and when the ledger before was one that recomputes, each of its columns is
  kept and extended by one cell.
\<close>

theorem add_transaction_validation:
  assumes "map_of frames MAIN_SHEET = Some L" "wf_frame L"
  shows "(list_all is_space customer \<longrightarrow>
            add_transaction p frames d customer dep r a e oe =
              Inr (frames, Error_message ''Please enter a customer name.'')) \<and>
         (\<not> list_all is_space customer \<longrightarrow>
            (\<exists>T main.
               add_transaction p frames d customer dep r a e oe =
                 Inr (T, Success_message ''Entry added and summaries updated.'') \<and>
               recompute_from_main p
                 (append_row (sanitize_types p L) (new_row d customer dep r a)) e oe = Inr T \<and>
               map fst T = sheet_names \<and> map_of T MAIN_SHEET = Some main \<and>
               nrows main = nrows L + 1 \<and>
               ((\<exists>T0. recompute_from_main p L e oe = Inr T0) \<longrightarrow>
                  (\<forall>c vs. map_of (sanitize_types p L) c = Some vs \<longrightarrow>
                     (\<exists>x. map_of main c = Some (vs @ [x]))))))"
proof (intro conjI impI)
  assume "list_all is_space customer"
  with assms(1) show "add_transaction p frames d customer dep r a e oe =
              Inr (frames, Error_message ''Please enter a customer name.'')"
    by (rule add_transaction_blank)
next
  assume n: "\<not> list_all is_space customer"
  define U where "U = append_row (sanitize_types p L) (new_row d customer dep r a)"
  from accepted_entry(1) [OF assms(2), of p d customer dep r a e oe] obtain T where
    T: "recompute_from_main p U e oe = Inr T" "map fst T = sheet_names"
      "map_of T MAIN_SHEET = Some (sanitize_types p U)"
    unfolding U_def by blast
  have a: "add_transaction p frames d customer dep r a e oe =
                 Inr (T, Success_message ''Entry added and summaries updated.'')"
    using T(1) by (simp add: add_transaction_accepted [OF assms(1) n] U_def)
  have k: "nrows (sanitize_types p U) = nrows L + 1"
    unfolding U_def by (rule accepted_entry(2) [OF assms(2)])
  have "\<forall>c vs. map_of (sanitize_types p L) c = Some vs \<longrightarrow>
                     (\<exists>x. map_of (sanitize_types p U) c = Some (vs @ [x]))"
    if "\<exists>T0. recompute_from_main p L e oe = Inr T0"
  proof (intro allI impI)
    fix c vs
    assume c: "map_of (sanitize_types p L) c = Some vs"
    from that recomputable_ledger [OF assms(2)]
    have "df_empty L \<or> map_of L ''Outstanding'' \<noteq> None \<or> map_of L ''Status'' = None"
      by blast
    from existing_rows_kept [OF assms(2) this c]
    show "\<exists>x. map_of (sanitize_types p U) c = Some (vs @ [x])"
      unfolding U_def .
  qed
  with a T k show "\<exists>T main.
               add_transaction p frames d customer dep r a e oe =
                 Inr (T, Success_message ''Entry added and summaries updated.'') \<and>
               recompute_from_main p
                 (append_row (sanitize_types p L) (new_row d customer dep r a)) e oe = Inr T \<and>
               map fst T = sheet_names \<and> map_of T MAIN_SHEET = Some main \<and>
               nrows main = nrows L + 1 \<and>
               ((\<exists>T0. recompute_from_main p L e oe = Inr T0) \<longrightarrow>
                  (\<forall>c vs. map_of (sanitize_types p L) c = Some vs \<longrightarrow>
                     (\<exists>x. map_of main c = Some (vs @ [x]))))"
    unfolding U_def by blast
qed

text \<open>
  Claim C7 at the uploaded ledger of two entries, for a blank customer and for a named one.
\<close>

theorem add_transaction_validation_witness:
  "map_of (load_workbook example_upload) MAIN_SHEET = Some example_ledger \<and>
   wf_frame example_ledger \<and>
   list_all is_space ''   '' \<and>
   add_transaction no_parse (load_workbook example_upload) (Date 2024 1 2) ''   '' 100 2 50 10 20 =
     Inr (load_workbook example_upload, Error_message ''Please enter a customer name.'') \<and>
   \<not> list_all is_space '' Carol '' \<and>
   (\<exists>T0. recompute_from_main no_parse example_ledger 10 20 = Inr T0) \<and>
   map_of (sanitize_types no_parse example_ledger) ''Customer'' = Some [Str ''Alice'', Str ''Bob''] \<and>
   (\<exists>T main.
      add_transaction no_parse (load_workbook example_upload) (Date 2024 1 2) '' Carol '' 100 2 50
          10 20 =
        Inr (T, Success_message ''Entry added and summaries updated.'') \<and>
      map fst T = sheet_names \<and> map_of T MAIN_SHEET = Some main \<and> nrows main = 3 \<and>
      (\<exists>x. map_of main ''Customer'' = Some ([Str ''Alice'', Str ''Bob''] @ [x])))"
proof -
  note m = example_upload_ledger and w = example_wf
  have b: "list_all is_space ''   ''" and nb: "\<not> list_all is_space '' Carol ''"
    by (simp_all add: is_space_def)
  have r: "\<exists>T0. recompute_from_main no_parse example_ledger 10 20 = Inr T0"
    using example_recompute by blast
  have c: "map_of (sanitize_types no_parse example_ledger) ''Customer'' = Some [Str ''Alice'', Str ''Bob'']"
    by (simp add: example_sanitize)
  from add_transaction_validation [OF m w, of "''   ''" no_parse "Date 2024 1 2" 100 2 50 10 20] b
  have 1: "add_transaction no_parse (load_workbook example_upload) (Date 2024 1 2) ''   '' 100 2 50 10 20 =
     Inr (load_workbook example_upload, Error_message ''Please enter a customer name.'')"
    by blast
  from add_transaction_validation [OF m w, of "'' Carol ''" no_parse "Date 2024 1 2" 100 2 50 10 20] nb
  obtain T main where
    2: "add_transaction no_parse (load_workbook example_upload) (Date 2024 1 2) '' Carol '' 100 2 50
          10 20 = Inr (T, Success_message ''Entry added and summaries updated.'')"
      "map fst T = sheet_names" "map_of T MAIN_SHEET = Some main"
      "nrows main = nrows example_ledger + 1" and
    3: "(\<exists>T0. recompute_from_main no_parse example_ledger 10 20 = Inr T0) \<longrightarrow>
                  (\<forall>c vs. map_of (sanitize_types no_parse example_ledger) c = Some vs \<longrightarrow>
                     (\<exists>x. map_of main c = Some (vs @ [x])))"
    by blast
  from 3 r c have "\<exists>x. map_of main ''Customer'' = Some ([Str ''Alice'', Str ''Bob''] @ [x])"
    by blast
  with m w b nb r c 1 2 show ?thesis
    by (simp add: example_nrows)
qed

subsection \<open>C8\<close>

text \<open>
  Claim C8, amended. Whenever the export of a recomputed ledger returns an artifact, the
  artifact holds exactly the four named tables, the three summaries as recomputed. A
  ledger table that is not empty is written with the eight ledger columns in their fixed
  order, each with the cells it has in the ledger, and without any other column; an empty
  ledger table is written as it is.
\<close>

theorem export_ledger_columns:
  assumes "export_bytes p df e oe = Inr artifact"
  shows "\<exists>T main sheets written.
           recompute_from_main p df e oe = Inr T \<and> map_of T MAIN_SHEET = Some main \<and>
           artifact = Workbook sheets \<and> map fst sheets = sheet_names \<and>
           map_of sheets MAIN_SHEET = Some written \<and>
           (\<forall>name \<in> set [CUSTOMER_SHEET, PURCHASE_SHEET, DAILY_SHEET].
              map_of sheets name = map_of T name) \<and>
           (if df_empty main then written = main
            else map fst written = ledger_columns \<and>
                 (\<forall>c \<in> set ledger_columns. map_of written c = map_of main c \<and> map_of main c \<noteq> None))"
proof -
  from assms obtain T where r: "recompute_from_main p df e oe = Inr T"
    and x: "to_excel_bytes T = Inr artifact"
    by (auto simp: export_bytes_def split: sum.splits)
  from recompute_shape [OF r] obtain cust pur daily where
    T: "T = [(MAIN_SHEET, sanitize_types p df), (CUSTOMER_SHEET, cust), (PURCHASE_SHEET, pur),
             (DAILY_SHEET, daily)]"
    by blast
  define main where "main = sanitize_types p df"
  from x obtain w where
    w: "(if \<not> df_empty main then select_columns main ledger_columns else Inr main) = Inr w"
    and f: "artifact = Workbook [(MAIN_SHEET, w), (CUSTOMER_SHEET, cust), (PURCHASE_SHEET, pur),
             (DAILY_SHEET, daily)]"
    unfolding to_excel_bytes_def T write_sheets_bundle main_def [symmetric]
    by (auto split: sum.splits)
  have "if df_empty main then w = main
        else map fst w = ledger_columns \<and>
             (\<forall>c \<in> set ledger_columns. map_of w c = map_of main c \<and> map_of main c \<noteq> None)"
  proof (cases "df_empty main")
    case True
    then show ?thesis using w by simp
  next
    case False
    then have "select_columns main ledger_columns = Inr w" using w by simp
    from select_columns_Inr [OF this] False show ?thesis by simp
  qed
  moreover have "map_of T MAIN_SHEET = Some main"
    by (simp add: T main_def)
  moreover have "map fst [(MAIN_SHEET, w), (CUSTOMER_SHEET, cust), (PURCHASE_SHEET, pur),
             (DAILY_SHEET, daily)] = sheet_names"
    by (simp add: sheet_names_def)
  moreover have "map_of [(MAIN_SHEET, w), (CUSTOMER_SHEET, cust), (PURCHASE_SHEET, pur),
             (DAILY_SHEET, daily)] MAIN_SHEET = Some w"
    by simp
  moreover have "\<forall>name \<in> set [CUSTOMER_SHEET, PURCHASE_SHEET, DAILY_SHEET].
      map_of [(MAIN_SHEET, w), (CUSTOMER_SHEET, cust), (PURCHASE_SHEET, pur),
             (DAILY_SHEET, daily)] name = map_of T name"
    by (simp add: T sheet_names_distinct)
  ultimately show ?thesis
    using r f by blast
qed

text \<open>
  Claim C8 as stated fails for an empty ledger: a ledger sheet with the two headers
  Customer and Date and no row is exported with these two columns, not with the eight in
  their fixed order.
\<close>

theorem export_order_counterexample:
  "export_bytes no_parse header_only_ledger 0 0 =
     Inr (Workbook
       [(MAIN_SHEET, [(''Customer'', []), (''Date'', [])]),
        (CUSTOMER_SHEET, empty_table customer_columns),
        (PURCHASE_SHEET, [(''Metric'', purchase_metrics),
                          (''Value'', [Num 0, Num 0, Num 0, Num 0, Num 0])]),
        (DAILY_SHEET, [(''Metric'', daily_metrics),
                       (''Value'', [Num 0, Num 0, Num 0, Num 0, Num 0])])]) \<and>
   map fst [(''Customer'', []), (''Date'', [])] \<noteq> ledger_columns"
proof -
  have e: "df_empty header_only_ledger"
    by (simp add: df_empty_def header_only_ledger_def nrows_def)
  show ?thesis
    unfolding export_bytes_def header_only_recompute sum.case to_excel_bytes_def
      write_sheets_bundle
    using e by (simp add: header_only_ledger_def ledger_columns_def)
qed

text \<open>
  The amended claim C8 at the ledger of two entries.
\<close>

theorem export_ledger_columns_witness:
  "\<exists>artifact sheets written.
     export_bytes no_parse example_ledger 10 20 = Inr artifact \<and>
     artifact = Workbook sheets \<and> map fst sheets = sheet_names \<and>
     map_of sheets MAIN_SHEET = Some written \<and> map fst written = ledger_columns \<and>
     ''Outstanding'' \<in> set ledger_columns \<and>
     map_of written ''Outstanding'' = Some [Num 1500, Num (-100)]"
proof -
  obtain wb where x: "export_bytes no_parse example_ledger 10 20 = Inr wb"
    using example_export by blast
  from export_ledger_columns [OF x] obtain T main sheets written where
    r: "recompute_from_main no_parse example_ledger 10 20 = Inr T" and
    m: "map_of T MAIN_SHEET = Some main" and
    f: "wb = Workbook sheets" "map fst sheets = sheet_names"
       "map_of sheets MAIN_SHEET = Some written" and
    c: "if df_empty main then written = main
        else map fst written = ledger_columns \<and>
             (\<forall>c \<in> set ledger_columns. map_of written c = map_of main c \<and> map_of main c \<noteq> None)"
    by blast
  have "main = sanitize_types no_parse example_ledger"
    using recompute_Inr [OF r] m by auto
  then have ne: "\<not> df_empty main" and o: "map_of main ''Outstanding'' = Some [Num 1500, Num (-100)]"
    using example_not_empty by (simp_all add: example_sanitize)
  have i: "''Outstanding'' \<in> set ledger_columns"
    by (simp add: ledger_columns_def)
  from c ne have k: "map fst written = ledger_columns"
    and a: "\<forall>c \<in> set ledger_columns. map_of written c = map_of main c \<and> map_of main c \<noteq> None"
    by simp_all
  from bspec [OF a i] o have "map_of written ''Outstanding'' = Some [Num 1500, Num (-100)]"
    by simp
  with x f k i show ?thesis by blast
qed

subsection \<open>C9\<close>




subsection \<open>C10\<close>



end
